theory Spec2Isabelle
  imports Complex_Main
begin

section \<open>Numbers and errors\<close>

text \<open>
  The Python code computes with binary floating-point numbers. This development embeds
  them as the real numbers they approximate: every statement about a value below is a
  statement about exact real arithmetic, and rounding is outside the model. Control flow
  (which checks are made, in which order, which exception is raised) is embedded as written.
\<close>

datatype error =
  ValueError | IndexError | AssertionError | BodyError | TypeError | KeyError | ZeroDivisionError

type_synonym Vector = "real list"

section \<open>solar/math/tools/vector.py\<close>

text \<open>\<^verbatim>\<open>Vector.__matmul__\<close>: an empty right operand gives 0 before any length check.\<close>

definition vector_matmul :: "Vector \<Rightarrow> real list \<Rightarrow> error + real" where
  "vector_matmul self v =
     (if length v = 0 then Inr 0
      else if length self \<noteq> length v then Inl ValueError
      else Inr (sum_list (map (\<lambda>(v1, v2). v1 * v2) (zip self v))))"

text \<open>\<^verbatim>\<open>Vector.__mul__\<close>: scaling by a number, element by element.\<close>

definition vector_mul :: "Vector \<Rightarrow> real \<Rightarrow> Vector" where
  "vector_mul self number = foldl (\<lambda>acc x. acc @ [x * number]) [] self"

text \<open>\<^verbatim>\<open>Vector.__add__\<close> and \<^verbatim>\<open>Vector.__sub__\<close>: an empty right operand returns
  \<^verbatim>\<open>self\<close> before any length check.\<close>

definition vector_add :: "Vector \<Rightarrow> real list \<Rightarrow> error + Vector" where
  "vector_add self v =
     (if length v = 0 then Inr self
      else if length self \<noteq> length v then Inl ValueError
      else Inr (map (\<lambda>(v1, v2). v1 + v2) (zip self v)))"

definition vector_sub :: "Vector \<Rightarrow> real list \<Rightarrow> error + Vector" where
  "vector_sub self v =
     (if length v = 0 then Inr self
      else if length self \<noteq> length v then Inl ValueError
      else Inr (map (\<lambda>(v1, v2). v1 - v2) (zip self v)))"

text \<open>
  Indexing a Python tuple with an integer: a negative index counts from the end, and an
  index outside \<open>[-len, len)\<close> raises \<^verbatim>\<open>IndexError\<close>.
\<close>

definition tuple_get :: "'a list \<Rightarrow> int \<Rightarrow> error + 'a" where
  "tuple_get xs i =
     (let n = int (length xs); j = (if i < 0 then i + n else i)
      in if 0 \<le> j \<and> j < n then Inr (xs ! nat j) else Inl IndexError)"

text \<open>
  Slicing a Python tuple: the bounds of \<^verbatim>\<open>slice(start, stop, step)\<close> are adjusted to the
  length as CPython does (negative bounds count from the end, all bounds are clamped),
  and a zero step raises \<^verbatim>\<open>ValueError\<close>.
\<close>

definition slice_adjust :: "int \<Rightarrow> int \<Rightarrow> int \<Rightarrow> int" where
  "slice_adjust n step i =
     (if i < 0 then (if i + n < 0 then (if step < 0 then - 1 else 0) else i + n)
      else if i \<ge> n then (if step < 0 then n - 1 else n)
      else i)"

definition tuple_slice :: "'a list \<Rightarrow> int option \<Rightarrow> int option \<Rightarrow> int option \<Rightarrow> error + 'a list" where
  "tuple_slice xs start stop step =
     (let st = (case step of None \<Rightarrow> 1 | Some s \<Rightarrow> s) in
      if st = 0 then Inl ValueError
      else
        let n = int (length xs);
            a = (case start of None \<Rightarrow> (if st < 0 then n - 1 else 0)
                 | Some x \<Rightarrow> slice_adjust n st x);
            b = (case stop of None \<Rightarrow> (if st < 0 then - 1 else n)
                 | Some x \<Rightarrow> slice_adjust n st x);
            m = (if st < 0 then (if b < a then (a - b - 1) div (- st) + 1 else 0)
                 else (if a < b then (b - a - 1) div st + 1 else 0))
        in Inr (map (\<lambda>k. xs ! nat (a + int k * st)) [0..<nat m]))"



definition vector_get_int :: "Vector \<Rightarrow> int \<Rightarrow> error + real" where
  "vector_get_int self i =
     (if i \<ge> int (length self) then Inl IndexError else tuple_get self i)"

definition vector_get_slice :: "Vector \<Rightarrow> int option \<Rightarrow> int option \<Rightarrow> int option \<Rightarrow> error + Vector" where
  "vector_get_slice self start stop step =
     (if start \<noteq> None \<and> the start < 0 then Inl IndexError
      else if stop \<noteq> None \<and> the stop > int (length self) then Inl IndexError
      else tuple_slice self start stop step)"


text \<open>\<^verbatim>\<open>Vector.concat\<close>: the arguments joined left to right.\<close>

definition vector_concat :: "real list list \<Rightarrow> Vector" where
  "vector_concat args = foldl (\<lambda>acc x. acc @ x) [] args"

section \<open>numpy arrays\<close>

text \<open>
  Body positions and velocities are one-dimensional numpy arrays. An elementwise binary
  operation on two arrays follows numpy's broadcasting: equal lengths combine pointwise,
  a length-1 operand is stretched, any other pair of lengths raises \<^verbatim>\<open>ValueError\<close>.
\<close>

definition ndarray_binop :: "(real \<Rightarrow> real \<Rightarrow> real) \<Rightarrow> real list \<Rightarrow> real list \<Rightarrow> error + real list" where
  "ndarray_binop f xs ys =
     (if length xs = length ys then Inr (map (\<lambda>(x, y). f x y) (zip xs ys))
      else if length xs = 1 then Inr (map (\<lambda>y. f (hd xs) y) ys)
      else if length ys = 1 then Inr (map (\<lambda>x. f x (hd ys)) xs)
      else Inl ValueError)"

definition ndarray_add :: "real list \<Rightarrow> real list \<Rightarrow> error + real list" where
  "ndarray_add = ndarray_binop (\<lambda>x y. x + y)"

definition ndarray_sub :: "real list \<Rightarrow> real list \<Rightarrow> error + real list" where
  "ndarray_sub = ndarray_binop (\<lambda>x y. x - y)"

definition ndarray_scale :: "real list \<Rightarrow> real \<Rightarrow> real list" where
  "ndarray_scale xs a = map (\<lambda>x. x * a) xs"

section \<open>solar/__init__.py\<close>

text \<open>\<^verbatim>\<open>exclude\<close>: the elements that differ from \<^verbatim>\<open>obj\<close>, in order.\<close>

definition exclude :: "'a list \<Rightarrow> 'a \<Rightarrow> 'a list" where
  "exclude iterable obj = filter (\<lambda>d. d \<noteq> obj) iterable"

text \<open>\<^verbatim>\<open>norm\<close>: the \<open>deg\<close>-norm; Python's \<^verbatim>\<open>sum\<close> adds from 0, left to right.\<close>

definition norm_deg :: "real list \<Rightarrow> int \<Rightarrow> error + real" where
  "norm_deg v deg =
     (if deg \<le> 0 then Inl ValueError
      else Inr ((foldl (\<lambda>acc el. acc + \<bar>el\<bar> ^ nat deg) 0 v) powr (1 / real_of_int deg)))"

text \<open>\<^verbatim>\<open>get_magnitude\<close>: the Euclidean distance of two points given as arrays.\<close>

definition get_magnitude :: "real list \<Rightarrow> real list \<Rightarrow> error + real" where
  "get_magnitude v1 v2 =
     (if length v1 \<noteq> length v2 then Inl ValueError
      else case ndarray_sub v2 v1 of Inl e \<Rightarrow> Inl e | Inr d \<Rightarrow> norm_deg d 2)"

section \<open>solar/math/physic/body.py\<close>

record Body =
  name :: string
  mass :: real
  position :: "real list"
  velocity :: "real list"

text \<open>
  \<^verbatim>\<open>Body.__init__\<close>. When no name is given the code draws one at random; no function
  embedded here reads the name, and the model then stores the empty string.
\<close>

definition Body_init :: "real \<Rightarrow> real list \<Rightarrow> real list \<Rightarrow> string option \<Rightarrow> error + Body" where
  "Body_init m p v nm =
     (if m \<le> 0 then Inl ValueError
      else if length p \<noteq> 3 then Inl ValueError
      else if length v \<noteq> 3 then Inl ValueError
      else Inr \<lparr>name = (case nm of Some s \<Rightarrow> s | None \<Rightarrow> []), mass = m,
                position = p, velocity = v\<rparr>)"

text \<open>\<^verbatim>\<open>Body.flatten\<close> and the module function \<^verbatim>\<open>flatten\<close> with \<^verbatim>\<open>split_mass=True\<close>.\<close>

definition Body_flatten :: "Body \<Rightarrow> real list" where
  "Body_flatten b = [mass b] @ position b @ velocity b"

fun flatten_loop :: "Body list \<Rightarrow> real list \<Rightarrow> real list \<Rightarrow> nat \<Rightarrow> error + (real list \<times> real list \<times> nat)" where
  "flatten_loop [] params masses i = Inr (params, masses, i)"
| "flatten_loop (body # bodies) params masses i =
     (let flattened = Body_flatten body in
      if length flattened \<noteq> 7 then Inl AssertionError
      else flatten_loop bodies (params @ tl flattened) (masses @ take 1 flattened) (i + 1))"

definition flatten :: "Body list \<Rightarrow> error + (Vector \<times> real list)" where
  "flatten bodies =
     (case flatten_loop bodies [] [] 0 of Inl e \<Rightarrow> Inl e
      | Inr (params, masses, i) \<Rightarrow>
          if length params \<noteq> i * 6 then Inl AssertionError
          else if length masses \<noteq> i then Inl AssertionError
          else Inr (params, masses))"

section \<open>solar/math/physic/__init__.py\<close>

definition G :: real where
  "G = 66743015 / 10 ^ 18"

text \<open>Evaluating a comprehension whose element expression may raise: the first error wins.\<close>

fun mapM_err :: "('a \<Rightarrow> error + 'b) \<Rightarrow> 'a list \<Rightarrow> error + 'b list" where
  "mapM_err f [] = Inr []"
| "mapM_err f (x # xs) =
     (case f x of Inl e \<Rightarrow> Inl e
      | Inr y \<Rightarrow> (case mapM_err f xs of Inl e \<Rightarrow> Inl e | Inr ys \<Rightarrow> Inr (y # ys)))"

text \<open>\<^verbatim>\<open>range(0, n, step)\<close> for a positive step.\<close>

definition range_step :: "nat \<Rightarrow> nat \<Rightarrow> nat list" where
  "range_step n step = map (\<lambda>q. q * step) [0..<(n + step - 1) div step]"

text \<open>\<^verbatim>\<open>get_acceleration\<close>: the loop over the other bodies, the accumulator threaded.\<close>

fun get_acceleration_loop :: "Body list \<Rightarrow> Body \<Rightarrow> Vector \<Rightarrow> error + Vector" where
  "get_acceleration_loop [] particle acceleration = Inr acceleration"
| "get_acceleration_loop (other_body # others) particle acceleration =
     (case get_magnitude (position particle) (position other_body) of Inl e \<Rightarrow> Inl e
      | Inr r \<Rightarrow>
        (case ndarray_sub (position other_body) (position particle) of Inl e \<Rightarrow> Inl e
         | Inr dir \<Rightarrow>
           (case vector_add acceleration (ndarray_scale dir ((G * mass other_body) / r ^ 3)) of
              Inl e \<Rightarrow> Inl e
            | Inr acc \<Rightarrow> get_acceleration_loop others particle acc)))"

definition get_acceleration :: "Body list \<Rightarrow> Body \<Rightarrow> error + Vector" where
  "get_acceleration others particle = get_acceleration_loop others particle [0, 0, 0]"

text \<open>
  Rebuilding one body from the flat state, as in \<^verbatim>\<open>n_body\<close> and in the driver's loop:
  \<^verbatim>\<open>Body(mass, state[i:i+3], state[i+3:i+6])\<close>.
\<close>

definition body_at :: "Vector \<Rightarrow> nat \<times> real \<Rightarrow> error + Body" where
  "body_at state = (\<lambda>(i, m).
     case vector_get_slice state (Some (int i)) (Some (int i + 3)) None of Inl e \<Rightarrow> Inl e
     | Inr p \<Rightarrow>
       (case vector_get_slice state (Some (int i + 3)) (Some (int i + 6)) None of Inl e \<Rightarrow> Inl e
        | Inr v \<Rightarrow> Body_init m p v None))"

definition bodies_of_state :: "Vector \<Rightarrow> real list \<Rightarrow> error + Body list" where
  "bodies_of_state state masses = mapM_err (body_at state) (zip (range_step (length state) 6) masses)"

text \<open>
  \<^verbatim>\<open>n_body\<close>. The class \<^verbatim>\<open>Body\<close> defines no \<^verbatim>\<open>__eq__\<close>, so the \<^verbatim>\<open>!=\<close> of
  \<^verbatim>\<open>exclude\<close> compares object identity: each body of \<^verbatim>\<open>body_list\<close> is paired with
  its index of allocation and compared as that pair. The time argument is accepted and
  never read.
\<close>

definition n_body_entry :: "(nat \<times> Body) list \<Rightarrow> nat \<times> Body \<Rightarrow> error + real list list" where
  "n_body_entry body_list planet =
     (case get_acceleration (map snd (exclude body_list planet)) (snd planet) of Inl e \<Rightarrow> Inl e
      | Inr a \<Rightarrow> Inr [velocity (snd planet), a])"

definition n_body :: "real \<Rightarrow> real list \<Rightarrow> real list \<Rightarrow> error + Vector" where
  "n_body t current_state masses =
     (if \<not> list_all (\<lambda>m. m > 0) masses then Inl AssertionError
      else if 6 * length masses \<noteq> length current_state then Inl ValueError
      else case bodies_of_state current_state masses of Inl e \<Rightarrow> Inl e
        | Inr bodies \<Rightarrow>
          (let body_list = zip [0..<length bodies] bodies in
           case mapM_err (n_body_entry body_list) body_list of Inl e \<Rightarrow> Inl e
           | Inr next_state \<Rightarrow>
             (let result = vector_concat (concat next_state) in
              if length result \<noteq> length current_state then Inl AssertionError
              else Inr result)))"

text \<open>\<^verbatim>\<open>get_gravitational_energy\<close>: for each body, the pairs with the bodies after it.\<close>

definition pair_energy :: "Body list \<Rightarrow> Body \<Rightarrow> nat \<Rightarrow> error + real" where
  "pair_energy particles p j =
     (case get_magnitude (position p) (position (particles ! j)) of Inl e \<Rightarrow> Inl e
      | Inr r \<Rightarrow> Inr ((G * mass p * mass (particles ! j)) / r))"

fun gravitational_loop :: "Body list \<Rightarrow> (nat \<times> Body) list \<Rightarrow> real \<Rightarrow> error + real" where
  "gravitational_loop particles [] u = Inr u"
| "gravitational_loop particles ((i, p) # rest) u =
     (case mapM_err (pair_energy particles p) [i + 1..<length particles] of Inl e \<Rightarrow> Inl e
      | Inr terms \<Rightarrow> gravitational_loop particles rest (u + foldl (\<lambda>acc x. acc + x) 0 terms))"

definition get_gravitational_energy :: "Body list \<Rightarrow> error + real" where
  "get_gravitational_energy particles =
     (case gravitational_loop particles (zip [0..<length particles] particles) 0 of
        Inl e \<Rightarrow> Inl e | Inr u \<Rightarrow> Inr (- u))"

text \<open>\<^verbatim>\<open>get_kinetic_energy_gen\<close> over the pairs (mass, velocity).\<close>

definition kinetic_term :: "real \<times> real list \<Rightarrow> error + real" where
  "kinetic_term = (\<lambda>(m, v).
     case norm_deg (ndarray_scale v m) 2 of Inl e \<Rightarrow> Inl e
     | Inr r \<Rightarrow> Inr (r ^ 2 / (2 * m)))"

definition get_kinetic_energy_gen :: "(real \<times> real list) list \<Rightarrow> error + real" where
  "get_kinetic_energy_gen particles =
     (case mapM_err kinetic_term particles of Inl e \<Rightarrow> Inl e
      | Inr terms \<Rightarrow> Inr (foldl (\<lambda>acc x. acc + x) 0 terms))"

definition hamiltonian :: "Body list \<Rightarrow> error + real" where
  "hamiltonian particles =
     (case get_gravitational_energy particles of Inl e \<Rightarrow> Inl e
      | Inr u \<Rightarrow>
        (case get_kinetic_energy_gen (map (\<lambda>b. (mass b, velocity b)) particles) of
           Inl e \<Rightarrow> Inl e
         | Inr k \<Rightarrow> Inr (u + k)))"

section \<open>solar/math/integrator/rungekutta.py\<close>

text \<open>
  The Butcher tableau is given by three static fields of the subclass: \<^verbatim>\<open>A\<close> (rows of
  coefficients), \<^verbatim>\<open>b\<close> and \<^verbatim>\<open>c\<close>.
\<close>

record tableau =
  tableau_A :: "real list list"
  tableau_b :: "real list"
  tableau_c :: "real list"

text \<open>
  The integrator object, with its private fields \<^verbatim>\<open>__func\<close>, \<^verbatim>\<open>__y0\<close>, \<^verbatim>\<open>__h\<close>,
  \<^verbatim>\<open>__n\<close>, \<^verbatim>\<open>__current_t\<close> and \<^verbatim>\<open>__f_kwargs\<close>. The keyword arguments for
  \<^verbatim>\<open>f\<close> are a dictionary from names to values; \<^verbatim>\<open>f\<close> may raise.
\<close>

record 'v ARK =
  ark_func :: "real \<Rightarrow> Vector \<Rightarrow> (string \<rightharpoonup> 'v) \<Rightarrow> error + Vector"
  ark_y0 :: Vector
  ark_h :: real
  ark_n :: int
  ark_current_t :: real
  ark_f_kwargs :: "string \<rightharpoonup> 'v"

definition ARK_init ::
  "(real \<Rightarrow> Vector \<Rightarrow> (string \<rightharpoonup> 'v) \<Rightarrow> error + Vector) \<Rightarrow> Vector \<Rightarrow> real \<Rightarrow> real \<Rightarrow> int \<Rightarrow> error + 'v ARK" where
  "ARK_init f y t0 tn steps =
     (if t0 - tn = 0 then Inl ValueError
      else if steps \<le> 0 then Inl ValueError
      else Inr \<lparr>ark_func = f, ark_y0 = y, ark_h = (tn - t0) / real_of_int steps,
                ark_n = steps, ark_current_t = t0, ark_f_kwargs = Map.empty\<rparr>)"

definition set_func_kwargs :: "'v ARK \<Rightarrow> (string \<rightharpoonup> 'v) \<Rightarrow> 'v ARK" where
  "set_func_kwargs self kwargs = self\<lparr>ark_f_kwargs := kwargs\<rparr>"

text \<open>
  The validation at the head of \<^verbatim>\<open>run_simulation\<close>: the three lengths are compared,
  then every row of \<^verbatim>\<open>A\<close> is compared with the row before it (\<^verbatim>\<open>A[i - 1]\<close>, which for
  the first row is the last one).
\<close>

fun check_lines :: "real list list \<Rightarrow> (nat \<times> real list) list \<Rightarrow> error option" where
  "check_lines A [] = None"
| "check_lines A ((i, line) # rest) =
     (case tuple_get A (int i - 1) of Inl e \<Rightarrow> Some e
      | Inr prev \<Rightarrow>
          if length line \<noteq> length prev then Some ValueError else check_lines A rest)"

definition check_tableau :: "tableau \<Rightarrow> error option" where
  "check_tableau T =
     (if length (tableau_A T) \<noteq> length (tableau_c T)
         \<or> length (tableau_c T) \<noteq> length (tableau_b T)
         \<or> length (tableau_A T) \<noteq> length (tableau_b T)
      then Some ValueError
      else check_lines (tableau_A T) (enumerate 0 (tableau_A T)))"

text \<open>\<^verbatim>\<open>self.A[i, j]\<close> for indices that are not negative.\<close>

definition matrix_get :: "real list list \<Rightarrow> nat \<Rightarrow> nat \<Rightarrow> error + real" where
  "matrix_get A i j =
     (if i < length A \<and> j < length (A ! i) then Inr (A ! i ! j) else Inl IndexError)"

text \<open>
  \<^verbatim>\<open>ARK.__sum\<close>: the empty list for no vectors, otherwise a left fold of numpy additions
  from the zero array that is as long as the last vector.
\<close>

fun sum_reduce :: "real list \<Rightarrow> real list list \<Rightarrow> error + real list" where
  "sum_reduce acc [] = Inr acc"
| "sum_reduce acc (x # xs) =
     (case ndarray_add acc x of Inl e \<Rightarrow> Inl e | Inr a \<Rightarrow> sum_reduce a xs)"

definition ARK_sum :: "real list list \<Rightarrow> error + real list" where
  "ARK_sum vectors =
     (if vectors = [] then Inr []
      else sum_reduce (replicate (length (last vectors)) 0) vectors)"

text \<open>The stage loop of one step: \<^verbatim>\<open>k_list\<close> grows by one vector per entry of \<^verbatim>\<open>c\<close>.\<close>

definition scaled_stage :: "real list list \<Rightarrow> nat \<Rightarrow> nat \<times> Vector \<Rightarrow> error + Vector" where
  "scaled_stage A i = (\<lambda>(j, k_i).
     case matrix_get A i j of Inl e \<Rightarrow> Inl e | Inr a \<Rightarrow> Inr (vector_mul k_i a))"

fun stages_loop :: "'v ARK \<Rightarrow> tableau \<Rightarrow> (nat \<times> real) list \<Rightarrow> Vector list \<Rightarrow> error + Vector list" where
  "stages_loop self T [] k_list = Inr k_list"
| "stages_loop self T ((i, c_i) # rest) k_list =
     (case mapM_err (scaled_stage (tableau_A T) i) (enumerate 0 k_list) of Inl e \<Rightarrow> Inl e
      | Inr terms \<Rightarrow>
        (case ARK_sum terms of Inl e \<Rightarrow> Inl e
         | Inr s \<Rightarrow>
           (case vector_add (ark_y0 self) s of Inl e \<Rightarrow> Inl e
            | Inr arg \<Rightarrow>
              (case ark_func self (ark_current_t self + c_i * ark_h self) arg (ark_f_kwargs self) of
                 Inl e \<Rightarrow> Inl e
               | Inr r \<Rightarrow> stages_loop self T rest (k_list @ [vector_mul r (ark_h self)])))))"

text \<open>One pass of the outer loop body, up to the \<^verbatim>\<open>yield\<close>.\<close>

definition ARK_step :: "'v ARK \<Rightarrow> tableau \<Rightarrow> error + 'v ARK" where
  "ARK_step self T =
     (case stages_loop self T (enumerate 0 (tableau_c T)) [] of Inl e \<Rightarrow> Inl e
      | Inr k_list \<Rightarrow>
        (case ARK_sum (map (\<lambda>(b_i, k_ni). vector_mul k_ni b_i) (zip (tableau_b T) k_list)) of
           Inl e \<Rightarrow> Inl e
         | Inr s \<Rightarrow>
           (case vector_add (ark_y0 self) s of Inl e \<Rightarrow> Inl e
            | Inr y \<Rightarrow> Inr (self\<lparr>ark_y0 := y, ark_current_t := ark_current_t self + ark_h self\<rparr>))))"

text \<open>
  The generator returned by \<^verbatim>\<open>ARK.run_simulation\<close> is embedded as the list of the
  states it yields, in order, together with the exception that ends it, if any.
  The outer loop runs over \<^verbatim>\<open>range(self.__n + 1)\<close>.
\<close>

fun steps_loop :: "nat \<Rightarrow> 'v ARK \<Rightarrow> tableau \<Rightarrow> Vector list \<times> error option" where
  "steps_loop 0 self T = ([], None)"
| "steps_loop (Suc m) self T =
     (case ARK_step self T of Inl e \<Rightarrow> ([], Some e)
      | Inr self' \<Rightarrow>
          (case steps_loop m self' T of (ys, r) \<Rightarrow> (ark_y0 self' # ys, r)))"

definition run_simulation :: "'v ARK \<Rightarrow> tableau \<Rightarrow> Vector list \<times> error option" where
  "run_simulation self T =
     (case check_tableau T of Some e \<Rightarrow> ([], Some e)
      | None \<Rightarrow> steps_loop (nat (ark_n self + 1)) self T)"

text \<open>The class \<^verbatim>\<open>ERK4\<close>: the classic fourth-order tableau.\<close>

definition ERK4 :: tableau where
  "ERK4 = \<lparr>tableau_A = [[0, 0, 0, 0], [1 / 2, 0, 0, 0], [0, 1 / 2, 0, 0], [0, 0, 1, 0]],
           tableau_b = [1 / 6, 1 / 3, 1 / 3, 1 / 6],
           tableau_c = [0, 1 / 2, 1 / 2, 1]\<rparr>"

section \<open>solar/solar_simulator.py\<close>

text \<open>
  The driver hands \<^verbatim>\<open>n_body\<close> to the integrator and sets the keyword arguments to
  \<^verbatim>\<open>masses=masses\<close>, so every call is \<^verbatim>\<open>n_body(t, y, masses=masses)\<close>; a call with
  another set of names is a \<^verbatim>\<open>TypeError\<close>.
\<close>

definition n_body_kwargs :: "real \<Rightarrow> Vector \<Rightarrow> (string \<rightharpoonup> real list) \<Rightarrow> error + Vector" where
  "n_body_kwargs t current_state kwargs =
     (case kwargs ''masses'' of None \<Rightarrow> Inl TypeError
      | Some masses \<Rightarrow>
          if dom kwargs \<noteq> {''masses''} then Inl TypeError else n_body t current_state masses)"

text \<open>
  The simulator object. \<^verbatim>\<open>data\<close> is a sequence of references to \<^verbatim>\<open>Body\<close> objects: the
  constructor compares bodies by identity (\<^verbatim>\<open>set(data)\<close>, \<^verbatim>\<open>x is not b\<close>), so the model
  keeps the references and reads the bodies through a heap. The dictionaries
  \<^verbatim>\<open>__error\<close> and \<^verbatim>\<open>__statedict\<close> are empty (\<open>None\<close>) until a run fills them.
\<close>

record trajectory =
  traj_x :: "real list"
  traj_y :: "real list"
  traj_z :: "real list"
  traj_name :: string

record energy =
  energy_x :: "real list"
  energy_y :: "real list"
  energy_dy :: "real list"

record SOLARSimulator =
  sim_data :: "nat list"
  sim_duration :: int
  sim_step :: int
  sim_error :: "energy option"
  sim_statedict :: "trajectory list option"

text \<open>\<^verbatim>\<open>check_pos\<close>, the function folded over \<^verbatim>\<open>data\<close> by the constructor.\<close>

definition same_position :: "Body \<Rightarrow> Body \<Rightarrow> bool" where
  "same_position x b = list_all (\<lambda>(cx, bx). cx = bx) (zip (position x) (position b))"

fun check_pos_loop :: "(nat \<Rightarrow> Body) \<Rightarrow> nat \<Rightarrow> nat list \<Rightarrow> bool" where
  "check_pos_loop heap x [] = True"
| "check_pos_loop heap x (b # bs) =
     (if x \<noteq> b \<and> same_position (heap x) (heap b) then False else check_pos_loop heap x bs)"

definition check_pos :: "(nat \<Rightarrow> Body) \<Rightarrow> nat list \<Rightarrow> bool \<Rightarrow> nat \<Rightarrow> bool" where
  "check_pos heap data acc x = (if \<not> acc then acc else check_pos_loop heap x data)"

definition SOLARSimulator_init :: "(nat \<Rightarrow> Body) \<Rightarrow> nat list \<Rightarrow> int \<Rightarrow> int \<Rightarrow> error + SOLARSimulator" where
  "SOLARSimulator_init heap data duration step =
     (if length (remdups data) \<noteq> length data \<or> \<not> foldl (check_pos heap data) True data
      then Inl BodyError
      else if duration \<le> 0 then Inl ValueError
      else if step \<le> 0 \<or> step > duration then Inl ValueError
      else Inr \<lparr>sim_data = data, sim_duration = duration, sim_step = step,
                sim_error = None, sim_statedict = None\<rparr>)"

text \<open>Python's \<^verbatim>\<open>int\<close> of a float: truncation towards zero.\<close>

definition py_int :: "real \<Rightarrow> int" where
  "py_int r = (if r < 0 then \<lceil>r\<rceil> else \<lfloor>r\<rfloor>)"

text \<open>
  The body of the driver's loop for one yielded state. First the positions of every body
  are appended to its trajectory (\<^verbatim>\<open>statedict[j // 6]\<close> is looked up before
  \<^verbatim>\<open>t_state[j]\<close> is read), then the bodies are rebuilt and the Hamiltonian recorded,
  then the loop callback is called; a callback is embedded by its outcome, \<open>None\<close> when it
  returns.
\<close>

fun record_positions :: "Vector \<Rightarrow> nat list \<Rightarrow> trajectory list \<Rightarrow> error + trajectory list" where
  "record_positions t_state [] sd = Inr sd"
| "record_positions t_state (j # js) sd =
     (if j div 6 \<ge> length sd then Inl KeyError
      else case vector_get_int t_state (int j) of Inl e \<Rightarrow> Inl e
        | Inr x \<Rightarrow>
          (case vector_get_int t_state (int j + 1) of Inl e \<Rightarrow> Inl e
           | Inr y \<Rightarrow>
             (case vector_get_int t_state (int j + 2) of Inl e \<Rightarrow> Inl e
              | Inr z \<Rightarrow>
                  record_positions t_state js
                    (sd[j div 6 := (sd ! (j div 6))
                       \<lparr>traj_x := traj_x (sd ! (j div 6)) @ [x],
                        traj_y := traj_y (sd ! (j div 6)) @ [y],
                        traj_z := traj_z (sd ! (j div 6)) @ [z]\<rparr>]))))"

fun consume_loop ::
  "SOLARSimulator \<Rightarrow> real list \<Rightarrow> (nat \<Rightarrow> error option) \<Rightarrow> (nat \<times> Vector) list \<Rightarrow> trajectory list \<Rightarrow> energy
     \<Rightarrow> error + (trajectory list \<times> energy)" where
  "consume_loop self masses loop_callBack [] sd en = Inr (sd, en)"
| "consume_loop self masses loop_callBack ((t, t_state) # rest) sd en =
     (case record_positions t_state (range_step (length t_state) 6) sd of Inl e \<Rightarrow> Inl e
      | Inr sd' \<Rightarrow>
        (case bodies_of_state t_state masses of Inl e \<Rightarrow> Inl e
         | Inr bodies \<Rightarrow>
           (case hamiltonian bodies of Inl e \<Rightarrow> Inl e
            | Inr h \<Rightarrow>
              (case tuple_get (energy_y en) (- 1) of Inl e \<Rightarrow> Inl e
               | Inr prev \<Rightarrow>
                 (case loop_callBack t of Some e \<Rightarrow> Inl e
                  | None \<Rightarrow>
                      consume_loop self masses loop_callBack rest sd'
                        \<lparr>energy_x = energy_x en @ [real_of_int (int t * sim_step self)],
                         energy_y = energy_y en @ [h],
                         energy_dy = energy_dy en @ [h - prev]\<rparr>)))))"

text \<open>
  \<^verbatim>\<open>SOLARSimulator.run_simulation\<close>. The generator of the integrator is consumed state
  by state; an exception that ends the generator reaches the caller after the states
  yielded before it have been recorded.
\<close>

definition SOLARSimulator_run_simulation ::
  "(nat \<Rightarrow> Body) \<Rightarrow> (nat \<Rightarrow> error option) \<Rightarrow> error option \<Rightarrow> SOLARSimulator \<Rightarrow> error + SOLARSimulator" where
  "SOLARSimulator_run_simulation heap loop_callBack after_callBack self =
     (let start = 0;
          stop = real_of_int (sim_duration self * 3600);
          step = real_of_int (sim_step self * 3600);
          bodies = map heap (sim_data self)
      in case flatten bodies of Inl e \<Rightarrow> Inl e
       | Inr (flattened, masses) \<Rightarrow>
         (let statedict = map (\<lambda>b. \<lparr>traj_x = [], traj_y = [], traj_z = [], traj_name = name b\<rparr>) bodies
          in case hamiltonian bodies of Inl e \<Rightarrow> Inl e
           | Inr h \<Rightarrow>
             (let en = \<lparr>energy_x = [0], energy_y = [h], energy_dy = [0]\<rparr>
              in if step = 0 then Inl ZeroDivisionError
                 else case ARK_init n_body_kwargs flattened start stop (py_int ((stop - start) / step)) of
                   Inl e \<Rightarrow> Inl e
                 | Inr rk4 \<Rightarrow>
                   (case run_simulation (set_func_kwargs rk4 [''masses'' \<mapsto> masses]) ERK4 of
                      (states, r) \<Rightarrow>
                        (case consume_loop self masses loop_callBack (enumerate 0 states) statedict en of
                           Inl e \<Rightarrow> Inl e
                         | Inr (sd, en') \<Rightarrow>
                           (case r of Some e \<Rightarrow> Inl e
                            | None \<Rightarrow>
                              (case after_callBack of Some e \<Rightarrow> Inl e
                               | None \<Rightarrow>
                                   Inr (self\<lparr>sim_error := Some en', sim_statedict := Some sd\<rparr>))))))))"

section \<open>Specification-side notions\<close>

text \<open>
  The definitions of this section are not taken from the code: they write down the
  mathematical notions the specification uses (Euclidean length, the components of a flat
  state, Newton's law of gravitation), and the code is compared with them.
\<close>

definition euclid :: "real list \<Rightarrow> real" where
  "euclid v = sqrt (sum_list (map (\<lambda>x. x ^ 2) v))"

definition vec_diff :: "real list \<Rightarrow> real list \<Rightarrow> real list" where
  "vec_diff a b = map (\<lambda>(x, y). x - y) (zip a b)"

definition pos_of :: "real list \<Rightarrow> nat \<Rightarrow> real list" where
  "pos_of state i = [state ! (6 * i), state ! (6 * i + 1), state ! (6 * i + 2)]"

definition vel_of :: "real list \<Rightarrow> nat \<Rightarrow> real list" where
  "vel_of state i = [state ! (6 * i + 3), state ! (6 * i + 4), state ! (6 * i + 5)]"

definition newton_acceleration :: "real list \<Rightarrow> real list \<Rightarrow> nat \<Rightarrow> real list" where
  "newton_acceleration state masses i =
     map (\<lambda>c. \<Sum>j \<in> {..<length masses} - {i}.
            G * (masses ! j) * (pos_of state j ! c - pos_of state i ! c)
              / euclid (vec_diff (pos_of state j) (pos_of state i)) ^ 3) [0..<3]"

text \<open>The body that the flat state and the mass sequence describe at index \<open>q\<close>.\<close>

definition state_body :: "real list \<Rightarrow> real list \<Rightarrow> nat \<Rightarrow> Body" where
  "state_body state masses q =
     \<lparr>name = [], mass = masses ! q, position = pos_of state q, velocity = vel_of state q\<rparr>"

text \<open>
  Kinetic energy \<open>\<Sum>\<^sub>i |m\<^sub>i v\<^sub>i|\<^sup>2 / (2 m\<^sub>i)\<close>, potential energy
  \<open>- \<Sum>\<^bsub>i < j\<^esub> G m\<^sub>i m\<^sub>j / |p\<^sub>i - p\<^sub>j|\<close> over the unordered pairs, and the invariant
  that the constructor of \<^verbatim>\<open>Body\<close> establishes.
\<close>

definition kinetic_energy :: "Body list \<Rightarrow> real" where
  "kinetic_energy bodies =
     (\<Sum>i < length bodies.
        euclid (map (\<lambda>x. mass (bodies ! i) * x) (velocity (bodies ! i))) ^ 2
          / (2 * mass (bodies ! i)))"

definition potential_energy :: "Body list \<Rightarrow> real" where
  "potential_energy bodies =
     - (\<Sum>(i, j) \<in> {(i, j). i < j \<and> j < length bodies}.
          G * mass (bodies ! i) * mass (bodies ! j)
            / euclid (vec_diff (position (bodies ! i)) (position (bodies ! j))))"

definition well_formed_body :: "Body \<Rightarrow> bool" where
  "well_formed_body b = (0 < mass b \<and> length (position b) = 3 \<and> length (velocity b) = 3)"

text \<open>
  The shape that the validation of \<^verbatim>\<open>run_simulation\<close> accepts, and the shape of an
  \<open>s\<close>-stage tableau as the specification has it.
\<close>

definition rectangular :: "tableau \<Rightarrow> bool" where
  "rectangular T =
     (length (tableau_A T) = length (tableau_b T) \<and> length (tableau_b T) = length (tableau_c T)
      \<and> list_all (\<lambda>line. length line = length (hd (tableau_A T))) (tableau_A T))"

text \<open>
  The explicit Runge-Kutta scheme of the specification for a derivative function \<open>g\<close>
  that does not fail: the stage \<open>k\<^sub>i = h g(t + c\<^sub>i h, y + \<Sum>\<^bsub>j < i\<^esub> A\<^bsub>ij\<^esub> k\<^sub>j, kwargs)\<close>, the
  update \<open>y + \<Sum>\<^sub>i b\<^sub>i k\<^sub>i\<close>, and the time and state after \<open>m\<close> updates.
\<close>

function rk_stage ::
  "(real \<Rightarrow> real list \<Rightarrow> 'kw \<Rightarrow> real list) \<Rightarrow> 'kw \<Rightarrow> tableau \<Rightarrow> real \<Rightarrow> real \<Rightarrow> real list \<Rightarrow> nat \<Rightarrow> real list" where
  "rk_stage g kw T h t y i =
     map (\<lambda>x. h * x)
       (g (t + tableau_c T ! i * h)
          (map (\<lambda>p. y ! p + (\<Sum>j \<leftarrow> [0..<i]. tableau_A T ! i ! j * rk_stage g kw T h t y j ! p))
               [0..<length y])
          kw)"
  by pat_completeness auto
termination
  by (relation "measure (\<lambda>(g, kw, T, h, t, y, i). i)") auto

declare rk_stage.simps [simp del]

definition rk_update ::
  "(real \<Rightarrow> real list \<Rightarrow> 'kw \<Rightarrow> real list) \<Rightarrow> 'kw \<Rightarrow> tableau \<Rightarrow> real \<Rightarrow> real \<Rightarrow> real list \<Rightarrow> real list" where
  "rk_update g kw T h t y =
     map (\<lambda>p. y ! p + (\<Sum>i \<leftarrow> [0..<length (tableau_c T)]. tableau_b T ! i * rk_stage g kw T h t y i ! p))
         [0..<length y]"

fun rk_state ::
  "(real \<Rightarrow> real list \<Rightarrow> 'kw \<Rightarrow> real list) \<Rightarrow> 'kw \<Rightarrow> tableau \<Rightarrow> real \<Rightarrow> real \<Rightarrow> real list \<Rightarrow> nat \<Rightarrow> real \<times> real list" where
  "rk_state g kw T h t y 0 = (t, y)"
| "rk_state g kw T h t y (Suc m) =
     (case rk_state g kw T h t y m of (t', y') \<Rightarrow> (t' + h, rk_update g kw T h t' y'))"

definition valid_tableau :: "tableau \<Rightarrow> nat \<Rightarrow> bool" where
  "valid_tableau T s =
     (length (tableau_A T) = s \<and> length (tableau_b T) = s \<and> length (tableau_c T) = s
      \<and> list_all (\<lambda>line. length line = s) (tableau_A T))"

text \<open>Two different entries of the collection refer to bodies at one position.\<close>

definition shared_position :: "(nat \<Rightarrow> Body) \<Rightarrow> nat list \<Rightarrow> bool" where
  "shared_position heap data =
     list_ex (\<lambda>i. list_ex (\<lambda>j. i \<noteq> j
                \<and> position (heap (data ! i)) = position (heap (data ! j)))
              [0..<length data])
       [0..<length data]"

text \<open>The number of entries that the series of a trajectory, or of the energy record, hold.\<close>

definition trajectory_entries :: "trajectory \<Rightarrow> nat \<Rightarrow> bool" where
  "trajectory_entries tr m =
     (length (traj_x tr) = m \<and> length (traj_y tr) = m \<and> length (traj_z tr) = m)"

definition energy_entries :: "energy \<Rightarrow> nat \<Rightarrow> bool" where
  "energy_entries en m =
     (length (energy_x en) = m \<and> length (energy_y en) = m \<and> length (energy_dy en) = m)"

text \<open>The right-hand side that \<^verbatim>\<open>n_body\<close> computes on a state of the right length.\<close>

definition n_body_rhs :: "real list \<Rightarrow> real \<Rightarrow> real list \<Rightarrow> (string \<rightharpoonup> real list) \<Rightarrow> real list" where
  "n_body_rhs masses t state kwargs =
     concat (map (\<lambda>i. vel_of state i @ newton_acceleration state masses i) [0..<length masses])"

section \<open>Vector operations on operands of unequal dimension\<close>

text \<open>
  C7, as stated: for all vectors of unequal dimension, addition, subtraction and the dot
  product raise a dimension error, also when exactly one operand has dimension 0.
  The code returns the left operand (or 0 for the dot product) when the right operand is
  empty, so the statement fails at \<open>u = (1, 2, 3, 4)\<close>, \<open>v = ()\<close>.
\<close>

theorem vector_unequal_dim_counterexample:
  "length [1, 2, 3, 4 :: real] \<noteq> length ([] :: real list)
   \<and> vector_add [1, 2, 3, 4] [] = Inr [1, 2, 3, 4]
   \<and> vector_sub [1, 2, 3, 4] [] = Inr [1, 2, 3, 4]
   \<and> vector_matmul [1, 2, 3, 4] [] = Inr 0"
  by (simp add: vector_add_def vector_sub_def vector_matmul_def)

text \<open>
  C7, amended: for all vectors \<open>u\<close> and \<open>v\<close> of unequal dimension where the right operand
  \<open>v\<close> is not of dimension 0, each of \<open>u + v\<close>, \<open>u - v\<close> and \<open>u @ v\<close> raises the dimension
  error (this covers an empty left operand with a non-empty right one); with an empty right
  operand \<open>u + v\<close> and \<open>u - v\<close> return \<open>u\<close> and \<open>u @ v\<close> returns 0.
\<close>

theorem vector_unequal_dim:
  "length u \<noteq> length v \<Longrightarrow>
     (v \<noteq> [] \<longrightarrow> vector_add u v = Inl ValueError \<and> vector_sub u v = Inl ValueError
                 \<and> vector_matmul u v = Inl ValueError)
   \<and> (v = [] \<longrightarrow> vector_add u v = Inr u \<and> vector_sub u v = Inr u
                 \<and> vector_matmul u v = Inr 0)"
  by (simp add: vector_add_def vector_sub_def vector_matmul_def)

theorem vector_unequal_dim_witness:
  "length ([] :: real list) \<noteq> length [5, 4, 3 :: real]
   \<and> vector_add [] [5, 4, 3] = Inl ValueError
   \<and> vector_sub [] [5, 4, 3] = Inl ValueError
   \<and> vector_matmul [] [5, 4, 3] = Inl ValueError"
  using vector_unequal_dim [of "[]" "[5, 4, 3]"] by simp

section \<open>Element and slice access\<close>

lemma tuple_slice_take_drop:
  assumes "a \<le> b" and "b \<le> length xs"
  shows "tuple_slice xs (Some (int a)) (Some (int b)) None = Inr (take (b - a) (drop a xs))"
proof -
  have A: "slice_adjust (int (length xs)) 1 (int a) = int a"
    using assms by (auto simp: slice_adjust_def)
  have B: "slice_adjust (int (length xs)) 1 (int b) = int b"
    using assms by (auto simp: slice_adjust_def)
  have C: "map (\<lambda>k. xs ! nat (int a + int k)) [0..<b - a] = take (b - a) (drop a xs)"
    using assms by (intro nth_equalityI) (auto simp: nat_add_distrib)
  have D: "nat (int b - int a) = b - a" by simp
  show ?thesis
    using assms C by (auto simp: tuple_slice_def A B D Let_def)
qed

lemma vector_get_slice_take_drop:
  assumes "a \<le> b" and "b \<le> length xs"
  shows "vector_get_slice xs (Some (int a)) (Some (int b)) None = Inr (take (b - a) (drop a xs))"
  using assms tuple_slice_take_drop[OF assms] by (simp add: vector_get_slice_def)




section \<open>The n-body derivative\<close>

lemma mapM_err_map:
  "(\<And>x. x \<in> set xs \<Longrightarrow> f x = Inr (g x)) \<Longrightarrow> mapM_err f xs = Inr (map g xs)"
  by (induction xs) auto

lemma foldl_add_sum_list:
  "foldl (\<lambda>acc el. acc + f el) a v = a + sum_list (map f v)"
  for a :: real
  by (induction v arbitrary: a) (auto simp: algebra_simps)

lemma norm_deg_2: "norm_deg v 2 = Inr (euclid v)"
proof -
  have "foldl (\<lambda>acc el. acc + \<bar>el\<bar> ^ nat 2) 0 v = sum_list (map (\<lambda>x. x ^ 2) v)"
    by (simp add: foldl_add_sum_list)
  moreover have "0 \<le> sum_list (map (\<lambda>x. x ^ 2) v)"
    by (rule sum_list_nonneg) auto
  ultimately show ?thesis
    by (simp add: norm_deg_def euclid_def powr_half_sqrt)
qed

lemma get_magnitude_eq:
  "length p = length q \<Longrightarrow> get_magnitude p q = Inr (euclid (vec_diff q p))"
  by (simp add: get_magnitude_def ndarray_sub_def ndarray_binop_def norm_deg_2 vec_diff_def)

lemma get_acceleration_loop_eq:
  assumes "length (position particle) = 3" and "\<forall>b \<in> set others. length (position b) = 3"
    and "length acc = 3"
  shows "get_acceleration_loop others particle acc =
     Inr (map (\<lambda>c. acc ! c + (\<Sum>b \<leftarrow> others.
            G * mass b * (position b ! c - position particle ! c)
              / euclid (vec_diff (position b) (position particle)) ^ 3)) [0..<3])"
  using assms
proof (induction others arbitrary: acc)
  case Nil
  then show ?case by (auto intro!: nth_equalityI)
next
  case (Cons ob others)
  let ?s = "G * mass ob / euclid (vec_diff (position ob) (position particle)) ^ 3"
  let ?dir = "vec_diff (position ob) (position particle)"
  let ?acc = "map (\<lambda>(v1, v2). v1 + v2) (zip acc (ndarray_scale ?dir ?s))"
  have len: "length (position ob) = 3" using Cons.prems by simp
  have ldir: "length ?dir = 3" using len Cons.prems(1) by (simp add: vec_diff_def)
  have m: "get_magnitude (position particle) (position ob) = Inr (euclid ?dir)"
    using len Cons.prems(1) by (simp add: get_magnitude_eq)
  have d: "ndarray_sub (position ob) (position particle) = Inr ?dir"
    using len Cons.prems(1) by (simp add: ndarray_sub_def ndarray_binop_def vec_diff_def)
  have a: "vector_add acc (ndarray_scale ?dir ?s) = Inr ?acc"
    using ldir Cons.prems(3) by (simp add: vector_add_def ndarray_scale_def)
  have lacc: "length ?acc = 3"
    using ldir Cons.prems(3) by (simp add: ndarray_scale_def)
  have step: "get_acceleration_loop (ob # others) particle acc
      = get_acceleration_loop others particle ?acc"
    by (simp add: m d a)
  have nth: "\<And>c. c < 3 \<Longrightarrow> ?acc ! c = acc ! c + 
       G * mass ob * (position ob ! c - position particle ! c) / euclid ?dir ^ 3"
    using ldir Cons.prems(1,3) len by (simp add: ndarray_scale_def vec_diff_def)
  have IH: "get_acceleration_loop others particle ?acc =
     Inr (map (\<lambda>c. ?acc ! c + (\<Sum>b \<leftarrow> others.
            G * mass b * (position b ! c - position particle ! c)
              / euclid (vec_diff (position b) (position particle)) ^ 3)) [0..<3])"
    using Cons.IH[OF Cons.prems(1) _ lacc] Cons.prems(2) by simp
  show ?case
    unfolding step IH using nth by (simp add: algebra_simps)
qed


lemma take3_drop:
  "n + 3 \<le> length xs \<Longrightarrow> take 3 (drop n xs) = [xs ! n, xs ! (n + 1), xs ! (n + 2)]"
  by (intro nth_equalityI) (auto simp: nth_Cons' less_Suc_eq numeral_3_eq_3)

lemma range_step_6: "range_step (6 * k) 6 = map (\<lambda>q. q * 6) [0..<k]"
proof -
  have "(6 * k + 6 - 1) div 6 = k" by arith
  then show ?thesis by (simp add: range_step_def)
qed

lemma zip_map_upt:
  "length ys = k \<Longrightarrow> zip (map f [0..<k]) ys = map (\<lambda>q. (f q, ys ! q)) [0..<k]"
  by (intro nth_equalityI) auto

lemma body_at_eq:
  assumes "6 * q + 6 \<le> length state" and "0 < m"
  shows "body_at state (q * 6, m) =
     Inr \<lparr>name = [], mass = m, position = pos_of state q, velocity = vel_of state q\<rparr>"
proof -
  have p: "vector_get_slice state (Some (int (q * 6))) (Some (int (q * 6) + 3)) None
      = Inr (pos_of state q)"
    using vector_get_slice_take_drop[of "q * 6" "q * 6 + 3" state] assms
      take3_drop[of "q * 6" state]
    by (simp add: pos_of_def mult.commute)
  have v: "vector_get_slice state (Some (int (q * 6) + 3)) (Some (int (q * 6) + 6)) None
      = Inr (vel_of state q)"
    using vector_get_slice_take_drop[of "q * 6 + 3" "q * 6 + 6" state] assms
      take3_drop[of "q * 6 + 3" state]
    by (simp add: vel_of_def mult.commute add.commute)
  show ?thesis
    unfolding body_at_def prod.case p v
    using assms(2) by (simp add: Body_init_def pos_of_def vel_of_def)
qed

lemma bodies_of_state_eq:
  assumes "length state = 6 * k" and "length masses = k" and "list_all (\<lambda>m. m > 0) masses"
  shows "bodies_of_state state masses = Inr (map (state_body state masses) [0..<k])"
proof -
  have z: "zip (range_step (length state) 6) masses = map (\<lambda>q. (q * 6, masses ! q)) [0..<k]"
    using assms by (simp add: range_step_6 zip_map_upt)
  have "mapM_err (body_at state) (map (\<lambda>q. (q * 6, masses ! q)) [0..<k])
      = Inr (map (\<lambda>x. state_body state masses (fst x div 6)) (map (\<lambda>q. (q * 6, masses ! q)) [0..<k]))"
  proof (rule mapM_err_map)
    fix x assume "x \<in> set (map (\<lambda>q. (q * 6, masses ! q)) [0..<k])"
    then obtain q where q: "q < k" "x = (q * 6, masses ! q)" by auto
    have "0 < masses ! q" using assms(2,3) q(1) by (simp add: list_all_length)
    moreover have "6 * q + 6 \<le> length state" using assms(1) q(1) by simp
    ultimately show "body_at state x = Inr (state_body state masses (fst x div 6))"
      using body_at_eq[of q state "masses ! q"] q(2) by (simp add: state_body_def)
  qed
  then show ?thesis
    by (simp add: bodies_of_state_def z comp_def)
qed


lemma zip_upt_map: "zip [0..<k] (map f [0..<k]) = map (\<lambda>q. (q, f q)) [0..<k]"
  by (intro nth_equalityI) auto

lemma exclude_indexed:
  "exclude (map (\<lambda>q. (q, f q)) xs) (i, f i) = map (\<lambda>q. (q, f q)) (filter (\<lambda>q. q \<noteq> i) xs)"
  by (induction xs) (auto simp: exclude_def)

lemma nth_zero3: "c < 3 \<Longrightarrow> [0, 0, 0 :: real] ! c = 0"
  by (auto simp: nth_Cons' )

lemma n_body_entry_eq:
  assumes "i < k" and "length masses = k"
  shows "n_body_entry (map (\<lambda>q. (q, state_body state masses q)) [0..<k]) (i, state_body state masses i)
     = Inr [vel_of state i, newton_acceleration state masses i]"
proof -
  let ?sb = "state_body state masses"
  let ?others = "map ?sb (filter (\<lambda>q. q \<noteq> i) [0..<k])"
  have ex: "map snd (exclude (map (\<lambda>q. (q, ?sb q)) [0..<k]) (i, ?sb i)) = ?others"
    by (simp add: exclude_indexed comp_def)
  have lp: "length (position (?sb i)) = 3" by (simp add: state_body_def pos_of_def)
  have lo: "\<forall>b \<in> set ?others. length (position b) = 3"
    by (auto simp: state_body_def pos_of_def)
  have set_eq: "set (filter (\<lambda>q. q \<noteq> i) [0..<k]) = {..<k} - {i}" by auto
  have sum_eq: "\<And>h :: nat \<Rightarrow> real. (\<Sum>b \<leftarrow> filter (\<lambda>q. q \<noteq> i) [0..<k]. h b) = (\<Sum>j \<in> {..<k} - {i}. h j)"
    using sum_list_distinct_conv_sum_set[of "filter (\<lambda>q. q \<noteq> i) [0..<k]"] set_eq by simp
  have acc: "get_acceleration ?others (?sb i) = Inr (newton_acceleration state masses i)"
    unfolding get_acceleration_def
    by (subst get_acceleration_loop_eq[OF lp lo])
       (auto simp: newton_acceleration_def nth_zero3 comp_def sum_eq state_body_def assms(2))
  show ?thesis
    unfolding n_body_entry_def snd_conv ex acc by (simp add: state_body_def)
qed

lemma foldl_append_concat: "foldl (\<lambda>acc x. acc @ x) a xs = a @ concat xs"
  by (induction xs arbitrary: a) auto

lemma vector_concat_eq: "vector_concat xs = concat xs"
  by (simp add: vector_concat_def foldl_append_concat)

lemma length_concat_const:
  "(\<And>x. x \<in> set xs \<Longrightarrow> length (f x) = n) \<Longrightarrow> length (concat (map f xs)) = n * length xs"
  by (induction xs) (auto simp: length_concat)

lemma n_body_value:
  assumes "length state = 6 * k" and "length masses = k" and "list_all (\<lambda>m. m > 0) masses"
  shows "n_body t state masses =
     Inr (concat (map (\<lambda>i. vel_of state i @ newton_acceleration state masses i) [0..<k]))"
proof -
  let ?sb = "state_body state masses"
  let ?bl = "map (\<lambda>q. (q, ?sb q)) [0..<k]"
  have b: "bodies_of_state state masses = Inr (map ?sb [0..<k])"
    using assms by (rule bodies_of_state_eq)
  have m: "mapM_err (n_body_entry ?bl) ?bl
     = Inr (map (\<lambda>x. [vel_of state (fst x), newton_acceleration state masses (fst x)]) ?bl)"
  proof (rule mapM_err_map)
    fix x assume "x \<in> set ?bl"
    then obtain i where i: "i < k" "x = (i, ?sb i)" by auto
    show "n_body_entry ?bl x = Inr [vel_of state (fst x), newton_acceleration state masses (fst x)]"
      using n_body_entry_eq[OF i(1) assms(2), of state] i(2) by simp
  qed
  have c: "concat (concat (map (\<lambda>x. [vel_of state (fst x), newton_acceleration state masses (fst x)]) ?bl))
      = concat (map (\<lambda>i. vel_of state i @ newton_acceleration state masses i) [0..<k])"
    by (induction k) auto
  have l: "length (concat (map (\<lambda>i. vel_of state i @ newton_acceleration state masses i) [0..<k])) = 6 * k"
    using length_concat_const[of "[0..<k]" "\<lambda>i. vel_of state i @ newton_acceleration state masses i" 6]
    by (simp add: vel_of_def newton_acceleration_def)
  have la: "list_all (\<lambda>m. m > 0) masses = True" "(6 * length masses \<noteq> length state) = False"
    using assms by simp_all
  show ?thesis
    using l assms
    by (simp add: n_body_def b Let_def zip_upt_map m vector_concat_eq c del: map_map)
qed

text \<open>
  C1: for positive masses, \<^verbatim>\<open>n_body\<close> raises the dimension error when six times the
  number of masses differs from the length of the state; otherwise, on a state of length
  \<open>6k\<close> whose \<open>k\<close> bodies sit at pairwise distinct positions, it returns a vector of the
  same length that lists, body by body in state order, the velocity copied from the state
  and then the acceleration \<open>\<Sum>\<^bsub>j \<noteq> i\<^esub> G m\<^sub>j (p\<^sub>j - p\<^sub>i) / |p\<^sub>j - p\<^sub>i|\<^sup>3\<close>
  with \<open>G = 6.6743015e-11\<close>.
\<close>

theorem n_body_derivative:
  assumes "list_all (\<lambda>m. 0 < m) masses"
  shows "(6 * length masses \<noteq> length state \<longrightarrow> n_body t state masses = Inl ValueError)
     \<and> (length state = 6 * length masses
          \<and> (\<forall>i < length masses. \<forall>j < length masses. i \<noteq> j \<longrightarrow> pos_of state i \<noteq> pos_of state j)
        \<longrightarrow> (\<exists>r. n_body t state masses = Inr r \<and> length r = length state
              \<and> r = concat (map (\<lambda>i. vel_of state i @ newton_acceleration state masses i)
                            [0..<length masses])))"
proof (intro conjI impI)
  assume "6 * length masses \<noteq> length state"
  then show "n_body t state masses = Inl ValueError"
    using assms by (simp add: n_body_def)
next
  assume a: "length state = 6 * length masses
          \<and> (\<forall>i < length masses. \<forall>j < length masses. i \<noteq> j \<longrightarrow> pos_of state i \<noteq> pos_of state j)"
  let ?r = "concat (map (\<lambda>i. vel_of state i @ newton_acceleration state masses i) [0..<length masses])"
  have v: "n_body t state masses = Inr ?r"
    using n_body_value[of state "length masses" masses t] a assms by simp
  have "length ?r = length state"
    using length_concat_const[of "[0..<length masses]"
        "\<lambda>i. vel_of state i @ newton_acceleration state masses i" 6] a
    by (simp add: vel_of_def newton_acceleration_def)
  with v show "\<exists>r. n_body t state masses = Inr r \<and> length r = length state \<and> r = ?r"
    by simp
qed

lemma euclid_unit: "euclid [1, 0, 0] = 1" "euclid [- 1, 0, 0] = 1"
  by (simp_all add: euclid_def)

theorem n_body_derivative_witness:
  "n_body 0 [0, 0, 0, 1, 0, 0, 1, 0, 0, 0, 1, 0] [1, 2]
     = Inr [1, 0, 0, 2 * G, 0, 0, 0, 1, 0, - G, 0, 0]
   \<and> n_body 0 [0, 0, 0, 1, 0, 0, 1] [1, 2] = Inl ValueError"
proof -
  have s2: "{..<Suc (Suc 0)} - {0} = {Suc 0}" "{..<Suc (Suc 0)} - {Suc 0} = {0}" by auto
  have u: "[0..<2] = [0, 1]" "[0..<3] = [0, 1, 2]" by (simp_all add: upt_rec)
  show ?thesis
    using n_body_derivative [of "[1, 2]" "[0, 0, 0, 1, 0, 0, 1, 0, 0, 0, 1, 0]" 0]
          n_body_derivative [of "[1, 2]" "[0, 0, 0, 1, 0, 0, 1]" 0]
    by (simp add: pos_of_def vel_of_def newton_acceleration_def vec_diff_def euclid_unit s2 u
        less_Suc_eq all_conj_distrib)
qed

text \<open>
  C10: the derivative does not depend on its time argument: at two times the results,
  values and errors alike, are equal.
\<close>

theorem n_body_time_independent:
  "n_body t1 state masses = n_body t2 state masses"
  by (simp add: n_body_def)

theorem n_body_time_independent_witness:
  "n_body 0 [0, 0, 0, 1, 0, 0] [1] = n_body 5 [0, 0, 0, 1, 0, 0] [1]
   \<and> n_body 0 [0, 0, 0] [1] = n_body 5 [0, 0, 0] [1]"
  using n_body_time_independent [of 0 "[0, 0, 0, 1, 0, 0]" "[1]" 5]
        n_body_time_independent [of 0 "[0, 0, 0]" "[1]" 5]
  by simp

section \<open>The Hamiltonian\<close>

lemma euclid_vec_diff_commute: "euclid (vec_diff a b) = euclid (vec_diff b a)"
proof -
  have "map (\<lambda>x. x ^ 2) (vec_diff a b) = map (\<lambda>x. x ^ 2) (vec_diff b a)"
  proof (induction a arbitrary: b)
    case Nil
    then show ?case by (simp add: vec_diff_def)
  next
    case (Cons x a)
    then show ?case by (cases b) (auto simp: vec_diff_def power2_commute)
  qed
  then show ?thesis by (simp add: euclid_def)
qed

lemma pair_energy_eq:
  assumes "length (position p) = length (position (particles ! j))"
  shows "pair_energy particles p j =
     Inr (G * mass p * mass (particles ! j) / euclid (vec_diff (position p) (position (particles ! j))))"
  using assms by (simp add: pair_energy_def get_magnitude_eq euclid_vec_diff_commute)

lemma gravitational_loop_eq:
  assumes "\<forall>b \<in> set particles. length (position b) = 3" and "\<forall>i \<in> set xs. i < length particles"
  shows "gravitational_loop particles (map (\<lambda>i. (i, particles ! i)) xs) u =
     Inr (u + (\<Sum>i \<leftarrow> xs. \<Sum>j \<leftarrow> [i + 1..<length particles].
            G * mass (particles ! i) * mass (particles ! j)
              / euclid (vec_diff (position (particles ! i)) (position (particles ! j)))))"
  using assms(2)
proof (induction xs arbitrary: u)
  case Nil
  then show ?case by simp
next
  case (Cons i xs)
  have m: "mapM_err (pair_energy particles (particles ! i)) [i + 1..<length particles]
     = Inr (map (\<lambda>j. G * mass (particles ! i) * mass (particles ! j)
              / euclid (vec_diff (position (particles ! i)) (position (particles ! j))))
            [i + 1..<length particles])"
  proof (rule mapM_err_map)
    fix j assume "j \<in> set [i + 1..<length particles]"
    then have "j < length particles" by simp
    moreover have "i < length particles" using Cons.prems by simp
    ultimately have "length (position (particles ! i)) = length (position (particles ! j))"
      using assms(1) by simp
    then show "pair_energy particles (particles ! i) j =
       Inr (G * mass (particles ! i) * mass (particles ! j)
              / euclid (vec_diff (position (particles ! i)) (position (particles ! j))))"
      by (rule pair_energy_eq)
  qed
  have f: "\<And>ts :: real list. foldl (\<lambda>acc x. acc + x) 0 ts = sum_list ts"
    using foldl_add_sum_list[of "\<lambda>x. x" 0] by simp
  have step: "gravitational_loop particles (map (\<lambda>i. (i, particles ! i)) (i # xs)) u
     = gravitational_loop particles (map (\<lambda>i. (i, particles ! i)) xs)
         (u + (\<Sum>j \<leftarrow> [i + 1..<length particles].
            G * mass (particles ! i) * mass (particles ! j)
              / euclid (vec_diff (position (particles ! i)) (position (particles ! j)))))"
    by (simp only: list.map gravitational_loop.simps m sum.case f)
  show ?case
    unfolding step using Cons.IH[of "u + (\<Sum>j \<leftarrow> [i + 1..<length particles].
            G * mass (particles ! i) * mass (particles ! j)
              / euclid (vec_diff (position (particles ! i)) (position (particles ! j))))"] Cons.prems
    by (simp del: upt_Suc add: add.assoc)
qed

lemma pairs_Sigma: "(SIGMA i:{0..<k::nat}. {i + 1..<k}) = {(i, j). i < j \<and> j < k}"
  by auto

lemma get_gravitational_energy_eq:
  assumes "\<forall>b \<in> set particles. length (position b) = 3"
  shows "get_gravitational_energy particles = Inr (potential_energy particles)"
proof -
  let ?k = "length particles"
  let ?f = "\<lambda>i j. G * mass (particles ! i) * mass (particles ! j)
              / euclid (vec_diff (position (particles ! i)) (position (particles ! j)))"
  have z: "zip [0..<?k] particles = map (\<lambda>i. (i, particles ! i)) [0..<?k]"
    by (intro nth_equalityI) auto
  have l: "gravitational_loop particles (map (\<lambda>i. (i, particles ! i)) [0..<?k]) 0
      = Inr (0 + (\<Sum>i \<leftarrow> [0..<?k]. \<Sum>j \<leftarrow> [i + 1..<?k]. ?f i j))"
    by (rule gravitational_loop_eq[OF assms]) simp
  have "(\<Sum>i \<leftarrow> [0..<?k]. \<Sum>j \<leftarrow> [i + 1..<?k]. ?f i j) = (\<Sum>i \<in> {0..<?k}. \<Sum>j \<in> {i + 1..<?k}. ?f i j)"
    by (simp add: interv_sum_list_conv_sum_set_nat del: upt_Suc)
  also have "\<dots> = (\<Sum>(i, j) \<in> (SIGMA i:{0..<?k}. {i + 1..<?k}). ?f i j)"
    by (rule sum.Sigma) auto
  finally have s: "(\<Sum>i \<leftarrow> [0..<?k]. \<Sum>j \<leftarrow> [i + 1..<?k]. ?f i j)
      = (\<Sum>(i, j) \<in> {(i, j). i < j \<and> j < ?k}. ?f i j)"
    by (simp only: pairs_Sigma)
  show ?thesis
    unfolding get_gravitational_energy_def z l s potential_energy_def by simp
qed

lemma get_kinetic_energy_gen_eq:
  "get_kinetic_energy_gen (map (\<lambda>b. (mass b, velocity b)) particles)
     = Inr (kinetic_energy particles)"
proof -
  let ?g = "\<lambda>b. euclid (map (\<lambda>x. mass b * x) (velocity b)) ^ 2 / (2 * mass b)"
  have m: "mapM_err kinetic_term (map (\<lambda>b. (mass b, velocity b)) particles)
      = Inr (map (\<lambda>(m, v). euclid (map (\<lambda>x. m * x) v) ^ 2 / (2 * m)) (map (\<lambda>b. (mass b, velocity b)) particles))"
    by (rule mapM_err_map) (auto simp: kinetic_term_def norm_deg_2 ndarray_scale_def mult.commute)
  have f: "\<And>ts :: real list. foldl (\<lambda>acc x. acc + x) 0 ts = sum_list ts"
    using foldl_add_sum_list[of "\<lambda>x. x" 0] by simp
  have "sum_list (map ?g particles) = (\<Sum>i < length particles. ?g (particles ! i))"
    by (simp add: sum_list_sum_nth atLeast0LessThan)
  then show ?thesis
    by (simp add: get_kinetic_energy_gen_def m f comp_def kinetic_energy_def)
qed

text \<open>
  C5: for a non-empty sequence of bodies (positive mass, three-dimensional position and
  velocity) at pairwise distinct positions, \<^verbatim>\<open>hamiltonian\<close> returns the kinetic energy
  \<open>\<Sum>\<^sub>i |m\<^sub>i v\<^sub>i|\<^sup>2 / (2 m\<^sub>i)\<close> plus the potential energy
  \<open>- \<Sum>\<^bsub>i < j\<^esub> G m\<^sub>i m\<^sub>j / |p\<^sub>i - p\<^sub>j|\<close>, each unordered pair counted once.
\<close>

theorem hamiltonian_value:
  assumes "particles \<noteq> []" and "\<forall>b \<in> set particles. well_formed_body b"
    and "\<forall>i < length particles. \<forall>j < length particles.
           i \<noteq> j \<longrightarrow> position (particles ! i) \<noteq> position (particles ! j)"
  shows "hamiltonian particles = Inr (kinetic_energy particles + potential_energy particles)"
proof -
  have "\<forall>b \<in> set particles. length (position b) = 3"
    using assms(2) by (simp add: well_formed_body_def)
  then show ?thesis
    by (simp add: hamiltonian_def get_gravitational_energy_eq get_kinetic_energy_gen_eq)
qed

theorem hamiltonian_value_witness:
  "hamiltonian [\<lparr>name = ''a'', mass = 1, position = [0, 0, 0], velocity = [1, 0, 0]\<rparr>,
                \<lparr>name = ''b'', mass = 3, position = [1, 0, 0], velocity = [0, 0, 0]\<rparr>]
     = Inr (1 / 2 - 3 * G)"
proof -
  let ?bs = "[\<lparr>name = ''a'', mass = 1, position = [0, 0, 0], velocity = [1, 0, 0]\<rparr>,
              \<lparr>name = ''b'', mass = 3, position = [1, 0, 0], velocity = [0, 0, 0]\<rparr>]"
  have p: "{(i, j). i < j \<and> j < Suc (Suc 0)} = {(0, Suc 0)}" by auto
  have z: "euclid [0, 0, 0] = 0" by (simp add: euclid_def)
  have l: "{..<Suc (Suc 0)} = {0, Suc 0}" by auto
  have K: "kinetic_energy ?bs = 1 / 2"
    by (simp add: kinetic_energy_def l z euclid_unit)
  have P: "potential_energy ?bs = - (3 * G)"
    by (simp add: potential_energy_def p euclid_unit vec_diff_def)
  have w: "\<forall>b \<in> set ?bs. well_formed_body b"
    by (simp add: well_formed_body_def)
  have d: "\<forall>i < length ?bs. \<forall>j < length ?bs. i \<noteq> j \<longrightarrow> position (?bs ! i) \<noteq> position (?bs ! j)"
    by (simp add: less_Suc_eq all_conj_distrib)
  show ?thesis
    using hamiltonian_value [of ?bs, OF _ w d] by (simp add: K P)
qed

section \<open>The Runge-Kutta stepper\<close>

lemma tuple_get_prev:
  assumes "i < length A"
  shows "tuple_get A (int i - 1) = Inr (A ! (if i = 0 then length A - 1 else i - 1))"
  using assms by (auto simp: tuple_get_def Let_def nat_diff_distrib')

lemma check_lines_enumerate:
  assumes "k + length rows = length A" and "rows = drop k A"
  shows "check_lines A (enumerate k rows) =
     (if \<forall>i. k \<le> i \<and> i < length A \<longrightarrow>
            length (A ! i) = length (A ! (if i = 0 then length A - 1 else i - 1))
      then None else Some ValueError)"
  using assms
proof (induction rows arbitrary: k)
  case Nil
  then show ?case by simp
next
  case (Cons line rows)
  have k: "k < length A" using Cons.prems(1) by simp
  have line: "line = A ! k" using Cons.prems(2) nth_via_drop[of k A line rows] by simp
  have "drop (Suc k) A = tl (drop k A)" by (simp add: drop_Suc tl_drop)
  then have rows: "rows = drop (Suc k) A" using Cons.prems(2)[symmetric] by simp
  have IH: "check_lines A (enumerate (Suc k) rows) =
     (if \<forall>i. Suc k \<le> i \<and> i < length A \<longrightarrow>
            length (A ! i) = length (A ! (if i = 0 then length A - 1 else i - 1))
      then None else Some ValueError)"
    using Cons.IH[of "Suc k"] Cons.prems(1) rows by simp
  have split: "(\<forall>i. k \<le> i \<and> i < length A \<longrightarrow> P i) = (P k \<and> (\<forall>i. Suc k \<le> i \<and> i < length A \<longrightarrow> P i))" for P
  proof
    assume a: "\<forall>i. k \<le> i \<and> i < length A \<longrightarrow> P i"
    show "P k \<and> (\<forall>i. Suc k \<le> i \<and> i < length A \<longrightarrow> P i)"
      using a k by auto
  next
    assume a: "P k \<and> (\<forall>i. Suc k \<le> i \<and> i < length A \<longrightarrow> P i)"
    show "\<forall>i. k \<le> i \<and> i < length A \<longrightarrow> P i"
    proof (intro allI impI)
      fix i assume "k \<le> i \<and> i < length A"
      then have "i = k \<or> (Suc k \<le> i \<and> i < length A)" by auto
      then show "P i" using a by auto
    qed
  qed
  show ?case
    unfolding enumerate_simps check_lines.simps tuple_get_prev[OF k] sum.case IH line
    by (subst split[of "\<lambda>i. length (A ! i) = length (A ! (if i = 0 then length A - 1 else i - 1))"]) auto
qed

lemma chain_all_equal:
  fixes A :: "'a list list"
  shows "(\<forall>i. i < length A \<longrightarrow> length (A ! i) = length (A ! (if i = 0 then length A - 1 else i - 1)))
     = list_all (\<lambda>line. length line = length (hd A)) A"
proof
  assume c: "\<forall>i. i < length A \<longrightarrow> length (A ! i) = length (A ! (if i = 0 then length A - 1 else i - 1))"
  have "i < length A \<Longrightarrow> length (A ! i) = length (A ! 0)" for i
  proof (induction i)
    case 0
    then show ?case by simp
  next
    case (Suc i)
    have "length (A ! Suc i) = length (A ! i)" using c Suc.prems by fastforce
    then show ?case using Suc by simp
  qed
  then show "list_all (\<lambda>line. length line = length (hd A)) A"
    by (cases A) (auto simp: list_all_length hd_conv_nth)
next
  assume a: "list_all (\<lambda>line. length line = length (hd A)) A"
  show "\<forall>i. i < length A \<longrightarrow> length (A ! i) = length (A ! (if i = 0 then length A - 1 else i - 1))"
    using a by (auto simp: list_all_length)
qed

lemma check_tableau_eq:
  "check_tableau T = (if rectangular T then None else Some ValueError)"
proof -
  have "check_lines (tableau_A T) (enumerate 0 (tableau_A T)) =
     (if list_all (\<lambda>line. length line = length (hd (tableau_A T))) (tableau_A T)
      then None else Some ValueError)"
    using check_lines_enumerate[of 0 "tableau_A T" "tableau_A T"]
    by (simp add: chain_all_equal)
  then show ?thesis
    by (auto simp: check_tableau_def rectangular_def)
qed


lemma n_body_one_body:
  assumes "0 < m" and "length state = 6"
  shows "n_body t state [m] = Inr [state ! 3, state ! 4, state ! 5, 0, 0, 0]"
proof -
  have e: "{..<Suc 0} - {0::nat} = {}" by auto
  have u: "[0..<3] = [0, 1, 2]" by (simp add: upt_rec)
  show ?thesis
    using n_body_value[of state 1 "[m]" t] assms
    by (simp add: vel_of_def newton_acceleration_def e u)
qed

lemma vector_mul_eq: "vector_mul v a = map (\<lambda>x. x * a) v"
proof -
  have "foldl (\<lambda>acc x. acc @ [x * a]) ys v = ys @ map (\<lambda>x. x * a) v" for ys
    by (induction v arbitrary: ys) auto
  then show ?thesis by (simp add: vector_mul_def)
qed

lemma length_rk_stage:
  assumes "\<And>t y. length y = d \<Longrightarrow> length (g t y kw) = d" and "length y = d"
  shows "length (rk_stage g kw T h t y i) = d"
  using assms by (subst rk_stage.simps) simp

lemma sum_reduce_eq:
  assumes "length acc = d" and "\<forall>v \<in> set vs. length v = d"
  shows "sum_reduce acc vs = Inr (map (\<lambda>p. acc ! p + (\<Sum>v \<leftarrow> vs. v ! p)) [0..<d])"
  using assms
proof (induction vs arbitrary: acc)
  case Nil
  then show ?case by (auto intro!: nth_equalityI)
next
  case (Cons x vs)
  let ?a = "map (\<lambda>(u, v). u + v) (zip acc x)"
  have a: "ndarray_add acc x = Inr ?a"
    using Cons.prems by (simp add: ndarray_add_def ndarray_binop_def)
  have la: "length ?a = d" using Cons.prems by simp
  have "sum_reduce ?a vs = Inr (map (\<lambda>p. ?a ! p + (\<Sum>v \<leftarrow> vs. v ! p)) [0..<d])"
    using Cons.IH[OF la] Cons.prems by simp
  moreover have "map (\<lambda>p. ?a ! p + (\<Sum>v \<leftarrow> vs. v ! p)) [0..<d]
      = map (\<lambda>p. acc ! p + (\<Sum>v \<leftarrow> x # vs. v ! p)) [0..<d]"
    using Cons.prems by (auto simp: algebra_simps)
  ultimately show ?case by (simp add: a)
qed

lemma add_ARK_sum:
  assumes "length y = d" and "\<forall>v \<in> set vs. length v = d"
  shows "(case ARK_sum vs of Inl e \<Rightarrow> Inl e | Inr s \<Rightarrow> vector_add y s)
     = Inr (map (\<lambda>p. y ! p + (\<Sum>v \<leftarrow> vs. v ! p)) [0..<d])"
proof (cases "vs = []")
  case True
  have "map (\<lambda>p. y ! p) [0..<d] = y" using assms(1) by (auto intro!: nth_equalityI)
  then show ?thesis using True by (simp add: ARK_sum_def vector_add_def)
next
  case False
  then have l: "length (last vs) = d" using assms(2) by simp
  let ?s = "map (\<lambda>p. replicate d 0 ! p + (\<Sum>v \<leftarrow> vs. v ! p)) [0..<d]"
  have s: "ARK_sum vs = Inr ?s"
    using False l sum_reduce_eq[of "replicate d 0" d vs] assms(2) by (simp add: ARK_sum_def)
  have "vector_add y ?s = Inr (map (\<lambda>p. y ! p + (\<Sum>v \<leftarrow> vs. v ! p)) [0..<d])"
    using assms(1) by (auto simp: vector_add_def intro!: nth_equalityI)
  then show ?thesis by (simp add: s)
qed

lemma enumerate_0_nth: "enumerate 0 ks = map (\<lambda>j. (j, ks ! j)) [0..<length ks]"
  by (intro nth_equalityI) (auto simp: nth_enumerate_eq)

lemma stage_terms_eq:
  assumes "i < length A" and "length ks \<le> length (A ! i)"
  shows "mapM_err (scaled_stage A i) (enumerate 0 ks)
     = Inr (map (\<lambda>j. map (\<lambda>x. x * (A ! i ! j)) (ks ! j)) [0..<length ks])"
proof -
  have "mapM_err (scaled_stage A i) (map (\<lambda>j. (j, ks ! j)) [0..<length ks])
      = Inr (map (\<lambda>x. map (\<lambda>x'. x' * (A ! i ! fst x)) (snd x)) (map (\<lambda>j. (j, ks ! j)) [0..<length ks]))"
    by (rule mapM_err_map) (use assms in \<open>auto simp: scaled_stage_def matrix_get_def vector_mul_eq\<close>)
  then show ?thesis by (simp add: enumerate_0_nth comp_def)
qed


lemma stages_loop_eq:
  assumes vt: "valid_tableau T s"
    and f: "\<And>t y. length y = d \<Longrightarrow> ark_func self t y (ark_f_kwargs self) = Inr (g t y (ark_f_kwargs self)) \<and> length (g t y (ark_f_kwargs self)) = d"
    and y: "length (ark_y0 self) = d"
    and i: "i \<le> s"
  shows "stages_loop self T (enumerate i (drop i (tableau_c T)))
            (map (rk_stage g (ark_f_kwargs self) T (ark_h self) (ark_current_t self) (ark_y0 self)) [0..<i])
     = Inr (map (rk_stage g (ark_f_kwargs self) T (ark_h self) (ark_current_t self) (ark_y0 self)) [0..<s])"
  using i
proof (induction "s - i" arbitrary: i)
  case 0
  then have "i = s" by simp
  then show ?case using vt by (simp add: valid_tableau_def)
next
  case (Suc m)
  let ?K = "rk_stage g (ark_f_kwargs self) T (ark_h self) (ark_current_t self) (ark_y0 self)"
  let ?A = "tableau_A T"
  let ?c = "tableau_c T"
  let ?ks = "map ?K [0..<i]"
  have i: "i < s" using Suc.hyps(2) by simp
  have lc: "length ?c = s" and lA: "length ?A = s" and row: "length (?A ! i) = s"
    using vt i by (simp_all add: valid_tableau_def list_all_length)
  have lK: "\<And>j. length (?K j) = d"
    using length_rk_stage[of d g "ark_f_kwargs self" "ark_y0 self"] f y by simp
  have dr: "drop i ?c = ?c ! i # drop (Suc i) ?c"
    using i lc by (simp add: Cons_nth_drop_Suc)
  let ?terms = "map (\<lambda>j. map (\<lambda>x. x * (?A ! i ! j)) (?ks ! j)) [0..<length ?ks]"
  have t: "mapM_err (scaled_stage ?A i) (enumerate 0 ?ks) = Inr ?terms"
    using stage_terms_eq[of i ?A ?ks] i lA row by simp
  have lt: "\<forall>v \<in> set ?terms. length v = d" using lK by auto
  let ?arg = "map (\<lambda>p. ark_y0 self ! p + (\<Sum>v \<leftarrow> ?terms. v ! p)) [0..<d]"
  have a: "(case ARK_sum ?terms of Inl e \<Rightarrow> Inl e | Inr s \<Rightarrow> vector_add (ark_y0 self) s) = Inr ?arg"
    by (rule add_ARK_sum[OF y lt])
  have arg: "?arg = map (\<lambda>p. ark_y0 self ! p + (\<Sum>j \<leftarrow> [0..<i]. ?A ! i ! j * ?K j ! p)) [0..<length (ark_y0 self)]"
  proof -
    have "(\<Sum>v \<leftarrow> ?terms. v ! p) = (\<Sum>j \<leftarrow> [0..<i]. ?A ! i ! j * ?K j ! p)" if "p < d" for p
    proof -
      have "map (\<lambda>v. v ! p) ?terms = map (\<lambda>j. ?A ! i ! j * ?K j ! p) [0..<i]"
        by (rule nth_equalityI) (use that lK in \<open>auto simp: mult.commute\<close>)
      then show ?thesis by (simp only:)
    qed
    then show ?thesis using y by simp
  qed
  have larg: "length ?arg = d" by simp
  have fr: "ark_func self (ark_current_t self + ?c ! i * ark_h self) ?arg (ark_f_kwargs self)
      = Inr (g (ark_current_t self + ?c ! i * ark_h self) ?arg (ark_f_kwargs self))"
    using f[OF larg] by simp
  have Ki: "vector_mul (g (ark_current_t self + ?c ! i * ark_h self) ?arg (ark_f_kwargs self)) (ark_h self) = ?K i"
  proof -
    have e: "?K i = map (\<lambda>x. ark_h self * x)
       (g (ark_current_t self + ?c ! i * ark_h self)
          (map (\<lambda>p. ark_y0 self ! p + (\<Sum>j \<leftarrow> [0..<i]. ?A ! i ! j * ?K j ! p)) [0..<length (ark_y0 self)])
          (ark_f_kwargs self))"
      by (rule rk_stage.simps)
    have "vector_mul (g (ark_current_t self + ?c ! i * ark_h self) ?arg (ark_f_kwargs self)) (ark_h self)
       = map (\<lambda>x. ark_h self * x) (g (ark_current_t self + ?c ! i * ark_h self) ?arg (ark_f_kwargs self))"
      unfolding vector_mul_eq by (simp only: mult.commute)
    then show ?thesis unfolding arg using e by (simp only:)
  qed
  have step: "stages_loop self T (enumerate i (drop i ?c)) ?ks
      = stages_loop self T (enumerate (Suc i) (drop (Suc i) ?c)) (?ks @ [?K i])"
  proof -
    have "stages_loop self T ((i, ?c ! i) # enumerate (Suc i) (drop (Suc i) ?c)) ?ks
      = (case (case ARK_sum ?terms of Inl e \<Rightarrow> Inl e | Inr s \<Rightarrow> vector_add (ark_y0 self) s) of
           Inl e \<Rightarrow> Inl e
         | Inr arg \<Rightarrow> (case ark_func self (ark_current_t self + ?c ! i * ark_h self) arg (ark_f_kwargs self) of
                 Inl e \<Rightarrow> Inl e
               | Inr r \<Rightarrow> stages_loop self T (enumerate (Suc i) (drop (Suc i) ?c)) (?ks @ [vector_mul r (ark_h self)])))"
      unfolding stages_loop.simps t by (simp split: sum.splits)
    then show ?thesis
      unfolding a dr enumerate_simps by (simp only: sum.case fr Ki)
  qed
  have "?ks @ [?K i] = map ?K [0..<Suc i]" by simp
  then show ?case
    using Suc.hyps(1)[of "Suc i"] Suc.hyps(2) i unfolding step by simp
qed

lemma ARK_step_eq:
  assumes vt: "valid_tableau T s"
    and f: "\<And>t y. length y = d \<Longrightarrow> ark_func self t y (ark_f_kwargs self) = Inr (g t y (ark_f_kwargs self)) \<and> length (g t y (ark_f_kwargs self)) = d"
    and y: "length (ark_y0 self) = d"
  shows "ARK_step self T
     = Inr (self\<lparr>ark_y0 := rk_update g (ark_f_kwargs self) T (ark_h self) (ark_current_t self) (ark_y0 self),
                ark_current_t := ark_current_t self + ark_h self\<rparr>)"
proof -
  let ?K = "rk_stage g (ark_f_kwargs self) T (ark_h self) (ark_current_t self) (ark_y0 self)"
  let ?b = "tableau_b T"
  have lb: "length ?b = s" and lc: "length (tableau_c T) = s"
    using vt by (simp_all add: valid_tableau_def)
  have lK: "\<And>j. length (?K j) = d"
    using length_rk_stage[of d g "ark_f_kwargs self" "ark_y0 self"] f y by simp
  have st: "stages_loop self T (enumerate 0 (tableau_c T)) [] = Inr (map ?K [0..<s])"
    using stages_loop_eq[where g = g and self = self and i = 0 and d = d, OF vt f y] by simp
  let ?terms = "map (\<lambda>i. map (\<lambda>x. x * (?b ! i)) (?K i)) [0..<s]"
  have z: "map (\<lambda>(b_i, k_ni). vector_mul k_ni b_i) (zip ?b (map ?K [0..<s])) = ?terms"
    using lb by (intro nth_equalityI) (auto simp: vector_mul_eq)
  have lt: "\<forall>v \<in> set ?terms. length v = d" using lK by auto
  have a: "(case ARK_sum ?terms of Inl e \<Rightarrow> Inl e | Inr s \<Rightarrow> vector_add (ark_y0 self) s)
      = Inr (map (\<lambda>p. ark_y0 self ! p + (\<Sum>v \<leftarrow> ?terms. v ! p)) [0..<d])"
    by (rule add_ARK_sum[OF y lt])
  have u: "map (\<lambda>p. ark_y0 self ! p + (\<Sum>v \<leftarrow> ?terms. v ! p)) [0..<d]
      = rk_update g (ark_f_kwargs self) T (ark_h self) (ark_current_t self) (ark_y0 self)"
  proof -
    have "(\<Sum>v \<leftarrow> ?terms. v ! p) = (\<Sum>i \<leftarrow> [0..<s]. ?b ! i * ?K i ! p)" if "p < d" for p
    proof -
      have "map (\<lambda>v. v ! p) ?terms = map (\<lambda>i. ?b ! i * ?K i ! p) [0..<s]"
        by (rule nth_equalityI) (use that lK in \<open>auto simp: mult.commute\<close>)
      then show ?thesis by (simp only:)
    qed
    then show ?thesis using y lc by (simp add: rk_update_def)
  qed
  have "ARK_step self T
      = (case (case ARK_sum ?terms of Inl e \<Rightarrow> Inl e | Inr s \<Rightarrow> vector_add (ark_y0 self) s) of
           Inl e \<Rightarrow> Inl e
         | Inr y \<Rightarrow> Inr (self\<lparr>ark_y0 := y, ark_current_t := ark_current_t self + ark_h self\<rparr>))"
    unfolding ARK_step_def st sum.case z by (simp split: sum.splits)
  then show ?thesis unfolding a u by simp
qed


lemma length_rk_update: "length (rk_update g kw T h t y) = length y"
  by (simp add: rk_update_def)

lemma rk_state_shift:
  "rk_state g kw T h t y (Suc m) = rk_state g kw T h (t + h) (rk_update g kw T h t y) m"
  by (induction m) (auto split: prod.splits)

lemma length_rk_state: "length (snd (rk_state g kw T h t y m)) = length y"
  by (induction m) (auto split: prod.splits simp: length_rk_update)

lemma map_upt_Suc_shift: "map f [0..<Suc m] = f 0 # map (\<lambda>q. f (Suc q)) [0..<m]"
  by (simp add: upt_rec[of 0 "Suc m"] map_Suc_upt[symmetric] del: upt_Suc)

lemma steps_loop_eq:
  assumes vt: "valid_tableau T s"
    and f: "\<And>t y. length y = d \<Longrightarrow> ark_func self t y (ark_f_kwargs self) = Inr (g t y (ark_f_kwargs self)) \<and> length (g t y (ark_f_kwargs self)) = d"
    and y: "length (ark_y0 self) = d"
  shows "steps_loop m self T
     = (map (\<lambda>q. snd (rk_state g (ark_f_kwargs self) T (ark_h self) (ark_current_t self) (ark_y0 self) (Suc q))) [0..<m], None)"
  using f y
proof (induction m arbitrary: self)
  case 0
  then show ?case by simp
next
  case (Suc m)
  let ?kw = "ark_f_kwargs self" and ?h = "ark_h self" and ?t = "ark_current_t self" and ?y = "ark_y0 self"
  let ?self' = "self\<lparr>ark_y0 := rk_update g ?kw T ?h ?t ?y, ark_current_t := ?t + ?h\<rparr>"
  have st: "ARK_step self T = Inr ?self'"
    using ARK_step_eq[where g = g and self = self and d = d, OF vt Suc.prems(1) Suc.prems(2)] by simp
  have IH: "steps_loop m ?self' T
     = (map (\<lambda>q. snd (rk_state g ?kw T ?h (?t + ?h) (rk_update g ?kw T ?h ?t ?y) (Suc q))) [0..<m], None)"
    using Suc.IH[of ?self'] Suc.prems by (simp add: length_rk_update)
  have first: "snd (rk_state g ?kw T ?h ?t ?y (Suc 0)) = rk_update g ?kw T ?h ?t ?y"
    by simp
  have "map (\<lambda>q. snd (rk_state g ?kw T ?h ?t ?y (Suc q))) [0..<Suc m]
      = rk_update g ?kw T ?h ?t ?y
        # map (\<lambda>q. snd (rk_state g ?kw T ?h (?t + ?h) (rk_update g ?kw T ?h ?t ?y) (Suc q))) [0..<m]"
    unfolding map_upt_Suc_shift first by (simp only: rk_state_shift[of g ?kw T ?h ?t ?y])
  then show ?case
    unfolding steps_loop.simps st sum.case IH by simp
qed

lemma valid_rectangular: "valid_tableau T s \<Longrightarrow> rectangular T"
  by (cases "tableau_A T") (auto simp: valid_tableau_def rectangular_def list_all_iff)

lemma run_simulation_eq:
  assumes vt: "valid_tableau T s"
    and f: "\<And>t y. length y = d \<Longrightarrow> ark_func self t y (ark_f_kwargs self) = Inr (g t y (ark_f_kwargs self)) \<and> length (g t y (ark_f_kwargs self)) = d"
    and y: "length (ark_y0 self) = d"
  shows "run_simulation self T
     = (map (\<lambda>q. snd (rk_state g (ark_f_kwargs self) T (ark_h self) (ark_current_t self) (ark_y0 self) (Suc q)))
            [0..<nat (ark_n self + 1)], None)"
  using steps_loop_eq[where g = g and self = self and d = d, OF vt f y] valid_rectangular[OF vt]
  by (simp add: run_simulation_def check_tableau_eq)

text \<open>
  C6, as stated: \<^verbatim>\<open>run_simulation\<close> raises a configuration error whenever \<^verbatim>\<open>A\<close> is not
  \<open>s\<close>-by-\<open>s\<close>. The code compares the rows of \<^verbatim>\<open>A\<close> with each other only: a tableau
  with two stages and rows of length 3 passes the validation, and the run yields its
  states without an error.
\<close>

theorem tableau_validation_counterexample:
  "length (tableau_A \<lparr>tableau_A = [[0, 0, 0], [1, 0, 0]], tableau_b = [1 / 2, 1 / 2], tableau_c = [0, 1]\<rparr> ! 0) = 3
   \<and> length (tableau_c \<lparr>tableau_A = [[0, 0, 0], [1, 0, 0]], tableau_b = [1 / 2, 1 / 2], tableau_c = [0, 1]\<rparr>) = 2
   \<and> run_simulation
        (set_func_kwargs (projr (ARK_init n_body_kwargs [0, 0, 0, 1, 0, 0] 0 1 1)) [''masses'' \<mapsto> [1]])
        \<lparr>tableau_A = [[0, 0, 0], [1, 0, 0]], tableau_b = [1 / 2, 1 / 2], tableau_c = [0, 1]\<rparr>
      = ([[1, 0, 0, 1, 0, 0], [2, 0, 0, 1, 0, 0]], None)"
  by (simp add: run_simulation_def check_tableau_def enumerate_simps tuple_get_def
      ARK_init_def set_func_kwargs_def eval_nat_numeral ARK_step_def scaled_stage_def
      matrix_get_def ARK_sum_def ndarray_add_def ndarray_binop_def vector_add_def
      vector_mul_eq n_body_kwargs_def n_body_one_body)

text \<open>
  C6, amended: \<^verbatim>\<open>run_simulation\<close> raises the configuration error before it yields any
  state whenever \<^verbatim>\<open>len(A)\<close>, \<^verbatim>\<open>len(b)\<close>, \<^verbatim>\<open>len(c)\<close> are not all equal or the rows of
  \<^verbatim>\<open>A\<close> are not all of the same length; when the three lengths agree and the rows have
  one length (in particular for every \<open>s\<close>-by-\<open>s\<close> tableau) no configuration error is
  raised and the run goes on to the stepping loop.
\<close>

theorem tableau_validation:
  "(\<not> rectangular T \<longrightarrow>
       check_tableau T = Some ValueError \<and> run_simulation self T = ([], Some ValueError))
   \<and> (rectangular T \<longrightarrow>
       check_tableau T = None
       \<and> run_simulation self T = steps_loop (nat (ark_n self + 1)) self T)
   \<and> (valid_tableau T s \<longrightarrow> rectangular T)"
  using valid_rectangular[of T s] by (simp add: run_simulation_def check_tableau_eq)

theorem tableau_validation_witness:
  "run_simulation (projr (ARK_init n_body_kwargs [0, 0, 0, 1, 0, 0] 0 1 1))
       \<lparr>tableau_A = [[1, 2], [3, 4]], tableau_b = [1, 2, 4], tableau_c = [1, 2, 3]\<rparr>
     = ([], Some ValueError)
   \<and> run_simulation (projr (ARK_init n_body_kwargs [0, 0, 0, 1, 0, 0] 0 1 1))
       \<lparr>tableau_A = [[1, 2], [3, 4, 3]], tableau_b = [1, 2], tableau_c = [1, 2]\<rparr>
     = ([], Some ValueError)
   \<and> check_tableau ERK4 = None"
  using tableau_validation [of "\<lparr>tableau_A = [[1, 2], [3, 4]], tableau_b = [1, 2, 4], tableau_c = [1, 2, 3]\<rparr>"
          "projr (ARK_init n_body_kwargs [0, 0, 0, 1, 0, 0] 0 1 1)" 0]
        tableau_validation [of "\<lparr>tableau_A = [[1, 2], [3, 4, 3]], tableau_b = [1, 2], tableau_c = [1, 2]\<rparr>"
          "projr (ARK_init n_body_kwargs [0, 0, 0, 1, 0, 0] 0 1 1)" 0]
        tableau_validation [of ERK4 "projr (ARK_init n_body_kwargs [0, 0, 0, 1, 0, 0] 0 1 1)" 4]
  by (simp add: rectangular_def valid_tableau_def ERK4_def)

text \<open>
  C2: with a valid \<open>s\<close>-stage tableau and a derivative function that returns, for the
  keyword arguments in use, a vector of the dimension of its argument, one pass of the
  stepping loop computes the stages \<open>k\<^sub>i = h f(t + c\<^sub>i h, y + \<Sum>\<^bsub>j < i\<^esub> A\<^bsub>ij\<^esub> k\<^sub>j, kwargs)\<close>
  for \<open>i = 0, \<dots>, s - 1\<close>, replaces the state by \<open>y + \<Sum>\<^sub>i b\<^sub>i k\<^sub>i\<close> and the time by \<open>t + h\<close>,
  where \<open>h = (tn - t0) / n\<close>; the keyword arguments are the ones set on the integrator.
\<close>

theorem runge_kutta_step:
  assumes "ARK_init f y t0 tn steps = Inr self0"
    and "valid_tableau T s"
    and "\<forall>t v. length v = d \<longrightarrow> f t v kw = Inr (g t v kw) \<and> length (g t v kw) = d"
    and "length v = d"
    and "self = self0\<lparr>ark_y0 := v, ark_current_t := t, ark_f_kwargs := kw\<rparr>"
  shows "ark_h self = (tn - t0) / real_of_int steps
     \<and> stages_loop self T (enumerate 0 (tableau_c T)) []
         = Inr (map (rk_stage g kw T (ark_h self) t v) [0..<s])
     \<and> ARK_step self T
         = Inr (self\<lparr>ark_y0 := rk_update g kw T (ark_h self) t v,
                    ark_current_t := t + ark_h self\<rparr>)"
proof -
  have i: "ark_func self0 = f" "ark_h self0 = (tn - t0) / real_of_int steps"
    using assms(1) by (auto simp: ARK_init_def split: if_splits)
  have f: "\<And>t y. length y = d \<Longrightarrow>
      ark_func self t y (ark_f_kwargs self) = Inr (g t y (ark_f_kwargs self))
      \<and> length (g t y (ark_f_kwargs self)) = d"
    using assms(3,5) i by simp
  have y: "length (ark_y0 self) = d" using assms(4,5) by simp
  have "stages_loop self T (enumerate 0 (tableau_c T)) []
         = Inr (map (rk_stage g kw T (ark_h self) t v) [0..<s])"
    using stages_loop_eq[where g = g and self = self and d = d and i = 0, OF assms(2) f y] assms(5)
    by simp
  moreover have "ARK_step self T
         = Inr (self\<lparr>ark_y0 := rk_update g kw T (ark_h self) t v,
                    ark_current_t := t + ark_h self\<rparr>)"
    using ARK_step_eq[where g = g and self = self and d = d, OF assms(2) f y] assms(5) by simp
  ultimately show ?thesis using i assms(5) by simp
qed


lemma n_body_kwargs_one_body:
  "length v = 6 \<Longrightarrow>
     n_body_kwargs t v [''masses'' \<mapsto> [1]] = Inr [v ! 3, v ! 4, v ! 5, 0, 0, 0]"
  by (simp add: n_body_kwargs_def n_body_one_body)

lemmas rk_eval =
  enumerate_simps tuple_get_def eval_nat_numeral ARK_step_def scaled_stage_def
  matrix_get_def ARK_sum_def ndarray_add_def ndarray_binop_def vector_add_def
  vector_mul_eq n_body_kwargs_one_body ERK4_def

theorem runge_kutta_step_witness:
  "ARK_step \<lparr>ark_func = n_body_kwargs, ark_y0 = [0, 0, 0, 1, 0, 0], ark_h = 1, ark_n = 1,
              ark_current_t = 0, ark_f_kwargs = [''masses'' \<mapsto> [1]]\<rparr> ERK4
     = Inr \<lparr>ark_func = n_body_kwargs,
            ark_y0 = rk_update (\<lambda>t v kw. [v ! 3, v ! 4, v ! 5, 0, 0, 0]) [''masses'' \<mapsto> [1 :: real]] ERK4 1 0
                       [0, 0, 0, 1, 0, 0],
            ark_h = 1, ark_n = 1, ark_current_t = 1, ark_f_kwargs = [''masses'' \<mapsto> [1]]\<rparr>
   \<and> rk_update (\<lambda>t v kw. [v ! 3, v ! 4, v ! 5, 0, 0, 0]) [''masses'' \<mapsto> [1 :: real]] ERK4 1 0
         [0, 0, 0, 1, 0, 0] = [1, 0, 0, 1, 0, 0]"
proof -
  let ?self0 = "\<lparr>ark_func = n_body_kwargs, ark_y0 = [0, 0, 0, 1, 0, 0], ark_h = 1, ark_n = 1,
              ark_current_t = 0, ark_f_kwargs = Map.empty\<rparr> :: real list ARK"
  let ?kw = "[''masses'' \<mapsto> [1::real]]"
  let ?g = "\<lambda>(t::real) (v::real list) (kw :: string \<rightharpoonup> real list). [v ! 3, v ! 4, v ! 5, 0, 0, 0]"
  have i: "ARK_init n_body_kwargs [0, 0, 0, 1, 0, 0] 0 1 1 = Inr ?self0"
    by (simp add: ARK_init_def)
  have v: "valid_tableau ERK4 4" by (simp add: valid_tableau_def ERK4_def)
  have g: "\<forall>t v. length v = 6 \<longrightarrow> n_body_kwargs t v ?kw = Inr (?g t v ?kw) \<and> length (?g t v ?kw) = 6"
    by (simp add: n_body_kwargs_one_body)
  have direct: "ARK_step \<lparr>ark_func = n_body_kwargs, ark_y0 = [0, 0, 0, 1, 0, 0], ark_h = 1, ark_n = 1,
              ark_current_t = 0, ark_f_kwargs = ?kw\<rparr> ERK4
     = Inr \<lparr>ark_func = n_body_kwargs, ark_y0 = [1, 0, 0, 1, 0, 0],
            ark_h = 1, ark_n = 1, ark_current_t = 1, ark_f_kwargs = ?kw\<rparr>"
    by (simp add: rk_eval)
  have X: "?self0\<lparr>ark_y0 := [0, 0, 0, 1, 0, 0], ark_current_t := 0, ark_f_kwargs := ?kw\<rparr>
      = \<lparr>ark_func = n_body_kwargs, ark_y0 = [0, 0, 0, 1, 0, 0], ark_h = 1, ark_n = 1,
              ark_current_t = 0, ark_f_kwargs = ?kw\<rparr>"
    by simp
  have l: "length [0, 0, 0, 1, 0, 0 :: real] = 6" by simp
  note T = runge_kutta_step [where f = n_body_kwargs and g = ?g and kw = ?kw and T = ERK4
      and s = 4 and d = 6 and y = "[0, 0, 0, 1, 0, 0]" and ?t0.0 = 0 and tn = 1 and steps = 1
      and ?self0.0 = ?self0 and v = "[0, 0, 0, 1, 0, 0]" and t = 0, OF i v g l X [symmetric]]
  from T have step: "ARK_step \<lparr>ark_func = n_body_kwargs, ark_y0 = [0, 0, 0, 1, 0, 0], ark_h = 1, ark_n = 1,
              ark_current_t = 0, ark_f_kwargs = ?kw\<rparr> ERK4
     = Inr \<lparr>ark_func = n_body_kwargs,
            ark_y0 = rk_update ?g ?kw ERK4 1 0 [0, 0, 0, 1, 0, 0],
            ark_h = 1, ark_n = 1, ark_current_t = 1, ark_f_kwargs = ?kw\<rparr>"
    by simp
  from step direct have "rk_update ?g ?kw ERK4 1 0 [0, 0, 0, 1, 0, 0] = [1, 0, 0, 1, 0, 0]"
    by simp
  with step show ?thesis by simp
qed

text \<open>
  C3: an integrator constructed with \<open>n\<close> steps (the constructor admits only \<open>n \<ge> 1\<close> and
  \<open>t0 \<noteq> tn\<close>), run on a valid tableau with a dimension-preserving derivative function,
  yields exactly \<open>n + 1\<close> states and ends without an error; the element of index \<open>m\<close> is
  the state after \<open>m + 1\<close> updates of \<open>y0\<close>, so \<open>y0\<close> itself is not among the emitted
  states as such and each element is one update further than the one before it.
\<close>

theorem run_simulation_sequence:
  assumes "ARK_init f y t0 tn steps = Inr self0"
    and "valid_tableau T s"
    and "\<forall>t v. length v = length y \<longrightarrow> f t v kw = Inr (g t v kw) \<and> length (g t v kw) = length y"
  shows "1 \<le> steps \<and> t0 \<noteq> tn
     \<and> run_simulation (set_func_kwargs self0 kw) T
         = (map (\<lambda>m. snd (rk_state g kw T ((tn - t0) / real_of_int steps) t0 y (Suc m)))
                [0..<nat steps + 1], None)
     \<and> length (fst (run_simulation (set_func_kwargs self0 kw) T)) = nat steps + 1"
proof -
  let ?self = "set_func_kwargs self0 kw"
  have i: "1 \<le> steps" "t0 \<noteq> tn"
    "self0 = \<lparr>ark_func = f, ark_y0 = y, ark_h = (tn - t0) / real_of_int steps,
                ark_n = steps, ark_current_t = t0, ark_f_kwargs = Map.empty\<rparr>"
    using assms(1) by (auto simp: ARK_init_def split: if_splits)
  have f: "\<And>t v. length v = length y \<Longrightarrow>
      ark_func ?self t v (ark_f_kwargs ?self) = Inr (g t v (ark_f_kwargs ?self))
      \<and> length (g t v (ark_f_kwargs ?self)) = length y"
    using assms(3) i(3) by (simp add: set_func_kwargs_def)
  have y: "length (ark_y0 ?self) = length y" using i(3) by (simp add: set_func_kwargs_def)
  have r: "run_simulation ?self T
         = (map (\<lambda>m. snd (rk_state g kw T ((tn - t0) / real_of_int steps) t0 y (Suc m)))
                [0..<nat steps + 1], None)"
    using run_simulation_eq[where g = g and self = ?self and d = "length y", OF assms(2) f y] i
    by (simp add: set_func_kwargs_def nat_add_distrib)
  show ?thesis using i(1,2) r by simp
qed

theorem run_simulation_sequence_witness:
  "run_simulation
     (set_func_kwargs \<lparr>ark_func = n_body_kwargs, ark_y0 = [0, 0, 0, 1, 0, 0], ark_h = 1, ark_n = 1,
              ark_current_t = 0, ark_f_kwargs = Map.empty\<rparr> [''masses'' \<mapsto> [1]]) ERK4
     = ([[1, 0, 0, 1, 0, 0], [2, 0, 0, 1, 0, 0]], None)
   \<and> map (\<lambda>m. snd (rk_state (\<lambda>t v kw. [v ! 3, v ! 4, v ! 5, 0, 0, 0]) [''masses'' \<mapsto> [1 :: real]] ERK4
                     1 0 [0, 0, 0, 1, 0, 0] (Suc m))) [0..<2]
     = [[1, 0, 0, 1, 0, 0], [2, 0, 0, 1, 0, 0]]"
proof -
  let ?self0 = "\<lparr>ark_func = n_body_kwargs, ark_y0 = [0, 0, 0, 1, 0, 0], ark_h = 1, ark_n = 1,
              ark_current_t = 0, ark_f_kwargs = Map.empty\<rparr> :: real list ARK"
  let ?kw = "[''masses'' \<mapsto> [1::real]]"
  let ?g = "\<lambda>(t::real) (v::real list) (kw :: string \<rightharpoonup> real list). [v ! 3, v ! 4, v ! 5, 0, 0, 0]"
  have i: "ARK_init n_body_kwargs [0, 0, 0, 1, 0, 0] 0 1 1 = Inr ?self0"
    by (simp add: ARK_init_def)
  have v: "valid_tableau ERK4 4" by (simp add: valid_tableau_def ERK4_def)
  have g: "\<forall>t v. length v = length [0, 0, 0, 1, 0, 0 :: real]
      \<longrightarrow> n_body_kwargs t v ?kw = Inr (?g t v ?kw) \<and> length (?g t v ?kw) = length [0, 0, 0, 1, 0, 0 :: real]"
    by (simp add: n_body_kwargs_one_body)
  have direct: "run_simulation (set_func_kwargs ?self0 ?kw) ERK4
     = ([[1, 0, 0, 1, 0, 0], [2, 0, 0, 1, 0, 0]], None)"
    by (simp add: run_simulation_def check_tableau_def set_func_kwargs_def rk_eval)
  note T = run_simulation_sequence [where f = n_body_kwargs and g = ?g and kw = ?kw and T = ERK4
      and s = 4 and y = "[0, 0, 0, 1, 0, 0]" and ?t0.0 = 0 and tn = 1 and steps = 1
      and ?self0.0 = ?self0, OF i v g]
  from T have run: "run_simulation (set_func_kwargs ?self0 ?kw) ERK4
     = (map (\<lambda>m. snd (rk_state ?g ?kw ERK4 1 0 [0, 0, 0, 1, 0, 0] (Suc m))) [0..<2], None)"
    by (simp add: numeral_2_eq_2 del: rk_state.simps upt_Suc)
  from run direct have "map (\<lambda>m. snd (rk_state ?g ?kw ERK4 1 0 [0, 0, 0, 1, 0, 0] (Suc m))) [0..<2]
     = [[1, 0, 0, 1, 0, 0], [2, 0, 0, 1, 0, 0]]"
    by (simp only: prod.inject)
  with direct show ?thesis by simp
qed

section \<open>Constructing the simulator\<close>

lemma shared_position_iff:
  "shared_position heap data =
     (\<exists>i < length data. \<exists>j < length data.
        i \<noteq> j \<and> position (heap (data ! i)) = position (heap (data ! j)))"
proof -
  have "shared_position heap data =
     (\<exists>i \<in> {0..<length data}. \<exists>j \<in> {0..<length data}.
        i \<noteq> j \<and> position (heap (data ! i)) = position (heap (data ! j)))"
    by (simp add: shared_position_def list_ex_iff)
  also have "\<dots> = (\<exists>i < length data. \<exists>j < length data.
        i \<noteq> j \<and> position (heap (data ! i)) = position (heap (data ! j)))"
    by (meson atLeastLessThan_iff zero_le)
  finally show ?thesis .
qed

lemma same_position_eq:
  "length (position x) = length (position b) \<Longrightarrow> same_position x b = (position x = position b)"
  by (auto simp: same_position_def list_all_iff list_eq_iff_zip_eq)

lemma check_pos_loop_eq:
  "check_pos_loop heap x bs = (\<forall>b \<in> set bs. \<not> (x \<noteq> b \<and> same_position (heap x) (heap b)))"
  by (induction bs) auto

lemma foldl_check_pos:
  "foldl (check_pos heap data) acc xs = (acc \<and> (\<forall>x \<in> set xs. check_pos_loop heap x data))"
  by (induction xs arbitrary: acc) (auto simp: check_pos_def)

lemma body_check_eq:
  assumes "\<forall>r \<in> set data. length (position (heap r)) = 3"
  shows "(length (remdups data) \<noteq> length data \<or> \<not> foldl (check_pos heap data) True data)
     = shared_position heap data"
proof -
  have d: "(length (remdups data) \<noteq> length data) = (\<not> distinct data)"
    by (simp add: length_remdups_eq remdups_id_iff_distinct)
  have f: "(\<not> foldl (check_pos heap data) True data)
      = (\<exists>x \<in> set data. \<exists>b \<in> set data. x \<noteq> b \<and> position (heap x) = position (heap b))"
    using assms by (auto simp: foldl_check_pos check_pos_loop_eq same_position_eq)
  show ?thesis
  proof
    assume "length (remdups data) \<noteq> length data \<or> \<not> foldl (check_pos heap data) True data"
    then consider "\<not> distinct data"
      | "\<exists>x \<in> set data. \<exists>b \<in> set data. x \<noteq> b \<and> position (heap x) = position (heap b)"
      using d f by auto
    then show "shared_position heap data"
    proof cases
      case 1
      then obtain i j where "i < length data" "j < length data" "i \<noteq> j" "data ! i = data ! j"
        by (auto simp: distinct_conv_nth)
      then show ?thesis unfolding shared_position_iff by force
    next
      case 2
      then obtain x b where xb: "x \<in> set data" "b \<in> set data" "x \<noteq> b"
        "position (heap x) = position (heap b)" by auto
      then obtain i j where "i < length data" "data ! i = x" "j < length data" "data ! j = b"
        by (auto simp: in_set_conv_nth)
      then show ?thesis unfolding shared_position_iff using xb by blast
    qed
  next
    assume "shared_position heap data"
    then obtain i j where ij: "i < length data" "j < length data" "i \<noteq> j"
      "position (heap (data ! i)) = position (heap (data ! j))"
      unfolding shared_position_iff by auto
    show "length (remdups data) \<noteq> length data \<or> \<not> foldl (check_pos heap data) True data"
    proof (cases "data ! i = data ! j")
      case True
      then have "\<not> distinct data" using ij by (auto simp: distinct_conv_nth)
      then show ?thesis using d by simp
    next
      case False
      then have "\<exists>x \<in> set data. \<exists>b \<in> set data. x \<noteq> b \<and> position (heap x) = position (heap b)"
        using ij by (metis nth_mem)
      then show ?thesis using f by simp
    qed
  qed
qed

text \<open>
  C8: for bodies that satisfy the invariant of \<^verbatim>\<open>Body\<close> (three-dimensional position),
  constructing the simulator raises an error exactly when two entries of the collection
  share a position (the duplicate-position error, raised first), or \<open>duration \<le> 0\<close>, or
  \<open>step\<close> is outside \<open>(0, duration]\<close>; otherwise it returns the simulator with no result
  recorded: the constructor makes no integration step.
\<close>

theorem simulator_construction:
  assumes "\<forall>r \<in> set data. length (position (heap r)) = 3"
  shows "(isl (SOLARSimulator_init heap data duration step)
       \<longleftrightarrow> shared_position heap data \<or> duration \<le> 0 \<or> step \<le> 0 \<or> duration < step)
     \<and> (shared_position heap data \<longrightarrow> SOLARSimulator_init heap data duration step = Inl BodyError)
     \<and> (\<not> shared_position heap data \<and> (duration \<le> 0 \<or> step \<le> 0 \<or> duration < step)
          \<longrightarrow> SOLARSimulator_init heap data duration step = Inl ValueError)
     \<and> (\<not> shared_position heap data \<and> 0 < duration \<and> 0 < step \<and> step \<le> duration
          \<longrightarrow> SOLARSimulator_init heap data duration step
              = Inr \<lparr>sim_data = data, sim_duration = duration, sim_step = step,
                     sim_error = None, sim_statedict = None\<rparr>)"
  unfolding SOLARSimulator_init_def body_check_eq[OF assms] by auto


theorem simulator_construction_witness:
  "SOLARSimulator_init
      ((!) [\<lparr>name = ''sun'', mass = 2, position = [0, 0, 0], velocity = [0, 0, 0]\<rparr>,
            \<lparr>name = ''earth'', mass = 1, position = [1, 0, 0], velocity = [0, 1, 0]\<rparr>,
            \<lparr>name = ''twin'', mass = 1, position = [1, 0, 0], velocity = [0, 0, 1]\<rparr>])
      [0, 1] 50 10
     = Inr \<lparr>sim_data = [0, 1], sim_duration = 50, sim_step = 10,
            sim_error = None, sim_statedict = None\<rparr>
   \<and> SOLARSimulator_init
      ((!) [\<lparr>name = ''sun'', mass = 2, position = [0, 0, 0], velocity = [0, 0, 0]\<rparr>,
            \<lparr>name = ''earth'', mass = 1, position = [1, 0, 0], velocity = [0, 1, 0]\<rparr>,
            \<lparr>name = ''twin'', mass = 1, position = [1, 0, 0], velocity = [0, 0, 1]\<rparr>])
      [0, 1, 2] 50 10 = Inl BodyError
   \<and> SOLARSimulator_init
      ((!) [\<lparr>name = ''sun'', mass = 2, position = [0, 0, 0], velocity = [0, 0, 0]\<rparr>,
            \<lparr>name = ''earth'', mass = 1, position = [1, 0, 0], velocity = [0, 1, 0]\<rparr>,
            \<lparr>name = ''twin'', mass = 1, position = [1, 0, 0], velocity = [0, 0, 1]\<rparr>])
      [0, 1] (- 50) 10 = Inl ValueError
   \<and> SOLARSimulator_init
      ((!) [\<lparr>name = ''sun'', mass = 2, position = [0, 0, 0], velocity = [0, 0, 0]\<rparr>,
            \<lparr>name = ''earth'', mass = 1, position = [1, 0, 0], velocity = [0, 1, 0]\<rparr>,
            \<lparr>name = ''twin'', mass = 1, position = [1, 0, 0], velocity = [0, 0, 1]\<rparr>])
      [0, 1] 50 100 = Inl ValueError"
proof -
  let ?heap = "(!) [\<lparr>name = ''sun'', mass = 2, position = [0, 0, 0], velocity = [0, 0, 0]\<rparr>,
            \<lparr>name = ''earth'', mass = 1, position = [1, 0, 0], velocity = [0, 1, 0]\<rparr>,
            \<lparr>name = ''twin'', mass = 1, position = [1, 0, 0], velocity = [0, 0, 1]\<rparr>]"
  have w2: "\<forall>r \<in> set [0, 1]. length (position (?heap r)) = 3" by simp
  have w3: "\<forall>r \<in> set [0, 1, 2]. length (position (?heap r)) = 3" by simp
  have n2: "\<not> shared_position ?heap [0, 1]"
    by (simp add: shared_position_def upt_rec)
  have s3: "shared_position ?heap [0, 1, 2]"
    by (simp add: shared_position_def upt_rec)
  show ?thesis
    using simulator_construction [OF w2, of 50 10] simulator_construction [OF w3, of 50 10]
      simulator_construction [OF w2, of "- 50" 10] simulator_construction [OF w2, of 50 100] n2 s3
    by simp
qed

section \<open>The simulation driver\<close>

lemma flatten_loop_eq:
  assumes "\<forall>b \<in> set bodies. length (position b) = 3 \<and> length (velocity b) = 3"
  shows "flatten_loop bodies params masses i
     = Inr (params @ concat (map (\<lambda>b. position b @ velocity b) bodies),
            masses @ map mass bodies, i + length bodies)"
  using assms by (induction bodies arbitrary: params masses i) (auto simp: Body_flatten_def)

lemma length_concat_pv:
  assumes "\<forall>b \<in> set bodies. length (position b) = 3 \<and> length (velocity b) = 3"
  shows "length (concat (map (\<lambda>b. position b @ velocity b) bodies)) = 6 * length bodies"
  using assms by (induction bodies) auto

lemma flatten_eq:
  assumes "\<forall>b \<in> set bodies. length (position b) = 3 \<and> length (velocity b) = 3"
  shows "flatten bodies
     = Inr (concat (map (\<lambda>b. position b @ velocity b) bodies), map mass bodies)"
  using length_concat_pv[OF assms] by (simp add: flatten_def flatten_loop_eq[OF assms])

lemma hamiltonian_eq:
  assumes "\<forall>b \<in> set particles. length (position b) = 3"
  shows "hamiltonian particles = Inr (potential_energy particles + kinetic_energy particles)"
  using assms
  by (simp add: hamiltonian_def get_gravitational_energy_eq get_kinetic_energy_gen_eq)

lemma hamiltonian_state:
  assumes "length state = 6 * k" and "length masses = k" and "list_all (\<lambda>m. m > 0) masses"
  shows "\<exists>bodies h. bodies_of_state state masses = Inr bodies \<and> hamiltonian bodies = Inr h"
proof -
  have "\<forall>b \<in> set (map (state_body state masses) [0..<k]). length (position b) = 3"
    by (simp add: state_body_def pos_of_def)
  then show ?thesis
    using bodies_of_state_eq[OF assms] hamiltonian_eq by blast
qed

lemma vector_get_int_nth:
  "j < length v \<Longrightarrow> vector_get_int v (int j) = Inr (v ! j)"
  by (simp add: vector_get_int_def tuple_get_def)

lemma record_positions_entries:
  assumes "length t_state = 6 * k" and "length sd = k"
    and "distinct qs" and "\<forall>q \<in> set qs. q < k"
    and "\<forall>q < k. trajectory_entries (sd ! q) (if q \<in> set done then m + 1 else m)"
    and "set qs \<inter> set done = {}"
  shows "\<exists>sd'. record_positions t_state (map (\<lambda>q. q * 6) qs) sd = Inr sd' \<and> length sd' = k
     \<and> (\<forall>q < k. trajectory_entries (sd' ! q) (if q \<in> set qs \<union> set done then m + 1 else m))"
  using assms(2-)
proof (induction qs arbitrary: sd "done")
  case Nil
  then show ?case by simp
next
  case (Cons q qs)
  have q: "q < k" "q \<notin> set qs" "q \<notin> set done" using Cons.prems by auto
  let ?j = "q * 6"
  have g: "vector_get_int t_state (int ?j) = Inr (t_state ! ?j)"
    "vector_get_int t_state (int ?j + 1) = Inr (t_state ! (?j + 1))"
    "vector_get_int t_state (int ?j + 2) = Inr (t_state ! (?j + 2))"
    using vector_get_int_nth[of ?j t_state] vector_get_int_nth[of "?j + 1" t_state]
      vector_get_int_nth[of "?j + 2" t_state] q(1) assms(1) by (simp_all add: add.commute)
  let ?sd = "sd[q := (sd ! q)
                       \<lparr>traj_x := traj_x (sd ! q) @ [t_state ! ?j],
                        traj_y := traj_y (sd ! q) @ [t_state ! (?j + 1)],
                        traj_z := traj_z (sd ! q) @ [t_state ! (?j + 2)]\<rparr>]"
  have step: "record_positions t_state (map (\<lambda>q. q * 6) (q # qs)) sd
      = record_positions t_state (map (\<lambda>q. q * 6) qs) ?sd"
    unfolding list.map record_positions.simps g sum.case
    using q(1) Cons.prems(1) by simp
  have l: "length ?sd = k" using Cons.prems(1) by simp
  have e: "\<forall>p < k. trajectory_entries (?sd ! p) (if p \<in> set (q # done) then m + 1 else m)"
  proof (intro allI impI)
    fix p assume p: "p < k"
    show "trajectory_entries (?sd ! p) (if p \<in> set (q # done) then m + 1 else m)"
    proof (cases "p = q")
      case True
      then show ?thesis
        using Cons.prems(4) q Cons.prems(1) by (auto simp: trajectory_entries_def)
    next
      case False
      then show ?thesis using Cons.prems(4) p by simp
    qed
  qed
  have "\<exists>sd'. record_positions t_state (map (\<lambda>q. q * 6) qs) ?sd = Inr sd' \<and> length sd' = k
     \<and> (\<forall>p < k. trajectory_entries (sd' ! p) (if p \<in> set qs \<union> set (q # done) then m + 1 else m))"
    using Cons.IH[OF l _ _ e] Cons.prems q by auto
  then show ?case unfolding step by auto
qed

lemma record_positions_all:
  assumes "length t_state = 6 * k" and "length sd = k"
    and "\<forall>q < k. trajectory_entries (sd ! q) m"
  shows "\<exists>sd'. record_positions t_state (range_step (length t_state) 6) sd = Inr sd'
     \<and> length sd' = k \<and> (\<forall>q < k. trajectory_entries (sd' ! q) (m + 1))"
  using record_positions_entries[of t_state k sd "[0..<k]" "[]" m] assms
  by (simp add: range_step_6)


lemma consume_loop_entries:
  assumes "\<forall>st \<in> set states. length st = 6 * k" and "length sd = k"
    and "length masses = k" and "list_all (\<lambda>m. m > 0) masses"
    and "\<forall>q < k. trajectory_entries (sd ! q) m" and "energy_entries en (Suc m)"
    and "\<forall>t. loop_callBack t = None"
  shows "\<exists>sd' en'. consume_loop self masses loop_callBack (enumerate i states) sd en = Inr (sd', en')
     \<and> length sd' = k \<and> (\<forall>q < k. trajectory_entries (sd' ! q) (m + length states))
     \<and> energy_entries en' (Suc m + length states)"
  using assms(1,2,5,6)
proof (induction states arbitrary: i sd en m)
  case Nil
  then show ?case by simp
next
  case (Cons st states)
  have lst: "length st = 6 * k" using Cons.prems(1) by simp
  obtain sd1 where sd1: "record_positions st (range_step (length st) 6) sd = Inr sd1"
    "length sd1 = k" "\<forall>q < k. trajectory_entries (sd1 ! q) (m + 1)"
    using record_positions_all[OF lst Cons.prems(2,3)] by blast
  obtain bodies h where bh: "bodies_of_state st masses = Inr bodies" "hamiltonian bodies = Inr h"
    using hamiltonian_state[OF lst assms(3,4)] by blast
  have ne: "energy_y en \<noteq> []" using Cons.prems(4) by (auto simp: energy_entries_def)
  then have prev: "tuple_get (energy_y en) (- 1) = Inr (last (energy_y en))"
    by (simp add: tuple_get_def Let_def last_conv_nth nat_diff_distrib')
  let ?en = "\<lparr>energy_x = energy_x en @ [real_of_int (int i * sim_step self)],
               energy_y = energy_y en @ [h],
               energy_dy = energy_dy en @ [h - last (energy_y en)]\<rparr>"
  have step: "consume_loop self masses loop_callBack (enumerate i (st # states)) sd en
      = consume_loop self masses loop_callBack (enumerate (Suc i) states) sd1 ?en"
    unfolding enumerate_simps consume_loop.simps sd1(1) bh prev sum.case
    using assms(7) by simp
  have e1: "energy_entries ?en (Suc (m + 1))"
    using Cons.prems(4) by (simp add: energy_entries_def)
  have "\<exists>sd' en'. consume_loop self masses loop_callBack (enumerate (Suc i) states) sd1 ?en = Inr (sd', en')
     \<and> length sd' = k \<and> (\<forall>q < k. trajectory_entries (sd' ! q) (m + 1 + length states))
     \<and> energy_entries en' (Suc (m + 1) + length states)"
    using Cons.IH[OF _ sd1(2) sd1(3) e1] Cons.prems(1) by simp
  then show ?case unfolding step by simp
qed

lemma n_body_kwargs_good:
  assumes "list_all (\<lambda>m. m > 0) masses" and "length state = 6 * length masses"
  shows "n_body_kwargs t state [''masses'' \<mapsto> masses] = Inr (n_body_rhs masses t state [''masses'' \<mapsto> masses])
     \<and> length (n_body_rhs masses t state [''masses'' \<mapsto> masses]) = 6 * length masses"
proof -
  have "length (n_body_rhs masses t state [''masses'' \<mapsto> masses]) = 6 * length masses"
    using length_concat_const[of "[0..<length masses]"
        "\<lambda>i. vel_of state i @ newton_acceleration state masses i" 6]
    by (simp add: n_body_rhs_def vel_of_def newton_acceleration_def)
  then show ?thesis
    using n_body_value[OF assms(2) refl assms(1), of t]
    by (simp add: n_body_kwargs_def n_body_rhs_def)
qed

lemma valid_ERK4: "valid_tableau ERK4 4"
  by (simp add: valid_tableau_def ERK4_def)

lemma py_int_div:
  assumes "0 < d" and "0 < s"
  shows "py_int ((real_of_int (d * 3600) - 0) / real_of_int (s * 3600)) = d div s"
proof -
  have "real_of_int (d * 3600) / real_of_int (s * 3600) = real_of_int d / real_of_int s"
    by simp
  moreover have "0 \<le> real_of_int d / real_of_int s" using assms by simp
  ultimately show ?thesis
    by (simp add: py_int_def floor_divide_of_int_eq del: of_int_mult)
qed


lemma driver_entries:
  assumes init: "SOLARSimulator_init heap data duration step = Inr self"
    and wf: "\<forall>r \<in> set data. well_formed_body (heap r)"
    and cb: "\<forall>t. loop_callBack t = None" "after_callBack = None"
  shows "\<exists>sd en. SOLARSimulator_run_simulation heap loop_callBack after_callBack self
        = Inr (self\<lparr>sim_error := Some en, sim_statedict := Some sd\<rparr>)
     \<and> length sd = length data
     \<and> (\<forall>tr \<in> set sd. trajectory_entries tr (nat (duration div step) + 1))
     \<and> energy_entries en (nat (duration div step) + 2)"
proof -
  have s: "sim_data self = data" "sim_duration self = duration" "sim_step self = step"
    and r: "0 < duration" "0 < step" "step \<le> duration"
    using init by (auto simp: SOLARSimulator_init_def split: if_splits)
  let ?bodies = "map heap data"
  let ?k = "length data"
  let ?fl = "concat (map (\<lambda>b. position b @ velocity b) ?bodies)"
  let ?ms = "map mass ?bodies"
  let ?kw = "[''masses'' \<mapsto> ?ms]"
  let ?n = "duration div step"
  have n1: "1 \<le> ?n" using r pos_imp_zdiv_pos_iff[of step duration] by linarith
  have w3: "\<forall>b \<in> set ?bodies. length (position b) = 3 \<and> length (velocity b) = 3"
    using wf by (simp add: well_formed_body_def)
  have fl: "flatten ?bodies = Inr (?fl, ?ms)" by (rule flatten_eq[OF w3])
  have lfl: "length ?fl = 6 * ?k" using length_concat_pv[OF w3] by simp
  have lms: "length ?ms = ?k" by simp
  have pms: "list_all (\<lambda>m. m > 0) ?ms"
    using wf by (simp add: list_all_iff well_formed_body_def)
  obtain h0 where h0: "hamiltonian ?bodies = Inr h0"
    using hamiltonian_eq[of ?bodies] w3 by simp
  have st: "real_of_int (step * 3600) \<noteq> 0" using r by simp
  have pi: "py_int ((real_of_int (duration * 3600) - 0) / real_of_int (step * 3600)) = ?n"
    by (rule py_int_div[OF r(1,2)])
  let ?rk4 = "\<lparr>ark_func = n_body_kwargs, ark_y0 = ?fl,
      ark_h = (real_of_int (duration * 3600) - 0) / real_of_int ?n, ark_n = ?n,
      ark_current_t = 0, ark_f_kwargs = Map.empty\<rparr>"
  have ai: "ARK_init n_body_kwargs ?fl 0 (real_of_int (duration * 3600)) ?n = Inr ?rk4"
    using r n1 by (simp add: ARK_init_def)
  let ?self = "set_func_kwargs ?rk4 ?kw"
  have good: "\<And>t y. length y = 6 * ?k \<Longrightarrow>
      ark_func ?self t y (ark_f_kwargs ?self) = Inr (n_body_rhs ?ms t y (ark_f_kwargs ?self))
      \<and> length (n_body_rhs ?ms t y (ark_f_kwargs ?self)) = 6 * ?k"
    using n_body_kwargs_good[OF pms] by (simp add: set_func_kwargs_def)
  have ly: "length (ark_y0 ?self) = 6 * ?k" using lfl by (simp add: set_func_kwargs_def)
  let ?states = "map (\<lambda>q. snd (rk_state (n_body_rhs ?ms) (ark_f_kwargs ?self) ERK4 (ark_h ?self)
                      (ark_current_t ?self) (ark_y0 ?self) (Suc q))) [0..<nat (ark_n ?self + 1)]"
  have run: "run_simulation ?self ERK4 = (?states, None)"
    by (rule run_simulation_eq[where g = "n_body_rhs ?ms" and d = "6 * ?k", OF valid_ERK4 good ly])
  have ls: "length ?states = nat ?n + 1"
    using n1 by (simp add: set_func_kwargs_def nat_add_distrib)
  have ss: "\<forall>st \<in> set ?states. length st = 6 * ?k"
  proof
    fix st assume "st \<in> set ?states"
    then obtain q where "st = snd (rk_state (n_body_rhs ?ms) (ark_f_kwargs ?self) ERK4 (ark_h ?self)
                      (ark_current_t ?self) (ark_y0 ?self) (Suc q))"
      by auto
    then show "length st = 6 * ?k"
      using ly by (simp only: length_rk_state)
  qed
  let ?sd0 = "map (\<lambda>b. \<lparr>traj_x = [], traj_y = [], traj_z = [], traj_name = name b\<rparr>) ?bodies"
  let ?en0 = "\<lparr>energy_x = [0], energy_y = [h0], energy_dy = [0]\<rparr>"
  have t0: "\<forall>q < ?k. trajectory_entries (?sd0 ! q) 0" by (simp add: trajectory_entries_def)
  have e0: "energy_entries ?en0 (Suc 0)" by (simp add: energy_entries_def)
  obtain sd en where c: "consume_loop self ?ms loop_callBack (enumerate 0 ?states) ?sd0 ?en0 = Inr (sd, en)"
    "length sd = ?k" "\<forall>q < ?k. trajectory_entries (sd ! q) (0 + length ?states)"
    "energy_entries en (Suc 0 + length ?states)"
    using consume_loop_entries[OF ss _ lms pms t0 e0 cb(1), of self 0] by auto
  have res: "SOLARSimulator_run_simulation heap loop_callBack after_callBack self
        = Inr (self\<lparr>sim_error := Some en, sim_statedict := Some sd\<rparr>)"
    unfolding SOLARSimulator_run_simulation_def Let_def s fl prod.case sum.case h0 pi ai run c(1)
    using st cb(2) by simp
  have "\<forall>tr \<in> set sd. trajectory_entries tr (nat ?n + 1)"
    using c(2,3) ls by (auto simp: in_set_conv_nth)
  moreover have "energy_entries en (nat ?n + 2)" using c(4) ls by simp
  ultimately show ?thesis using res c(2) by blast
qed


lemma two_body_init:
  "SOLARSimulator_init
      ((!) [\<lparr>name = ''sun'', mass = 2, position = [0, 0, 0], velocity = [0, 0, 0]\<rparr>,
            \<lparr>name = ''earth'', mass = 1, position = [1, 0, 0], velocity = [0, 1, 0]\<rparr>])
      [0, 1] 7200 10
     = Inr \<lparr>sim_data = [0, 1], sim_duration = 7200, sim_step = 10,
            sim_error = None, sim_statedict = None\<rparr>"
  by (simp add: SOLARSimulator_init_def check_pos_def same_position_def)

lemma two_body_well_formed:
  "\<forall>r \<in> set [0, 1].
     well_formed_body
       ([\<lparr>name = ''sun'', mass = 2, position = [0, 0, 0], velocity = [0, 0, 0]\<rparr>,
         \<lparr>name = ''earth'', mass = 1, position = [1, 0, 0], velocity = [0, 1, 0]\<rparr>] ! r)"
  by (simp add: well_formed_body_def)

text \<open>
  C4, as stated: with duration 7200 and step 10 the run produces exactly 720 states, the
  trajectory and energy series gaining 720 entries past their initial entry. The stepper
  is built with \<open>n = 720\<close> and its loop runs over \<^verbatim>\<open>range(n + 1)\<close>: for two bodies every
  trajectory series ends with 721 entries and the energy series with 722, that is 721
  past its initial entry.
\<close>

theorem simulation_run_count_counterexample:
  "map_sum id (map (length \<circ> traj_x) \<circ> the \<circ> sim_statedict)
     (SOLARSimulator_run_simulation
        ((!) [\<lparr>name = ''sun'', mass = 2, position = [0, 0, 0], velocity = [0, 0, 0]\<rparr>,
              \<lparr>name = ''earth'', mass = 1, position = [1, 0, 0], velocity = [0, 1, 0]\<rparr>])
        (map_of []) None
        \<lparr>sim_data = [0, 1], sim_duration = 7200, sim_step = 10,
          sim_error = None, sim_statedict = None\<rparr>)
     = Inr [721, 721]
   \<and> map_sum id (length \<circ> energy_y \<circ> the \<circ> sim_error)
     (SOLARSimulator_run_simulation
        ((!) [\<lparr>name = ''sun'', mass = 2, position = [0, 0, 0], velocity = [0, 0, 0]\<rparr>,
              \<lparr>name = ''earth'', mass = 1, position = [1, 0, 0], velocity = [0, 1, 0]\<rparr>])
        (map_of []) None
        \<lparr>sim_data = [0, 1], sim_duration = 7200, sim_step = 10,
          sim_error = None, sim_statedict = None\<rparr>)
     = Inr 722"
proof -
  let ?heap = "(!) [\<lparr>name = ''sun'', mass = 2, position = [0, 0, 0], velocity = [0, 0, 0]\<rparr>,
              \<lparr>name = ''earth'', mass = 1, position = [1, 0, 0], velocity = [0, 1, 0]\<rparr>]"
  let ?self = "\<lparr>sim_data = [0, 1], sim_duration = 7200, sim_step = 10,
          sim_error = None, sim_statedict = None\<rparr>"
  have cb: "\<forall>t. (map_of [] :: nat \<rightharpoonup> error) t = None" by simp
  obtain sd en where r: "SOLARSimulator_run_simulation ?heap (map_of []) None ?self
        = Inr (?self\<lparr>sim_error := Some en, sim_statedict := Some sd\<rparr>)"
     "length sd = length [0, 1 :: nat]"
     "\<forall>tr \<in> set sd. trajectory_entries tr (nat (7200 div 10) + 1)"
     "energy_entries en (nat (7200 div 10) + 2)"
    using driver_entries[OF two_body_init two_body_well_formed cb refl] by blast
  obtain a b where sd: "sd = [a, b]"
    using r(2) by (cases sd; cases "tl sd") auto
  have "map (length \<circ> traj_x) sd = [721, 721]"
    using r(3) by (simp add: sd trajectory_entries_def)
  moreover have "length (energy_y en) = 722"
    using r(4) by (simp add: energy_entries_def)
  ultimately show ?thesis unfolding r(1) by simp
qed

text \<open>
  C4, amended: running the driver with duration 7200 hours and step 10 hours over a valid
  body collection, with callbacks that return, completes and produces exactly
  \<open>duration / step + 1 = 721\<close> states: every per-body trajectory series ends with 721
  entries (it has no initial entry) and the three energy series end with 722 entries,
  their initial entry and 721 more.
\<close>

theorem simulation_run_count:
  assumes "SOLARSimulator_init heap data 7200 10 = Inr self"
    and "\<forall>r \<in> set data. well_formed_body (heap r)"
    and "\<forall>t. loop_callBack t = None" and "after_callBack = None"
  shows "\<exists>sd en. SOLARSimulator_run_simulation heap loop_callBack after_callBack self
        = Inr (self\<lparr>sim_error := Some en, sim_statedict := Some sd\<rparr>)
     \<and> length sd = length data
     \<and> (\<forall>tr \<in> set sd. trajectory_entries tr 721)
     \<and> energy_entries en 722"
  using driver_entries[OF assms] by simp

theorem simulation_run_count_witness:
  "\<exists>sd en. SOLARSimulator_run_simulation
        ((!) [\<lparr>name = ''sun'', mass = 2, position = [0, 0, 0], velocity = [0, 0, 0]\<rparr>,
              \<lparr>name = ''earth'', mass = 1, position = [1, 0, 0], velocity = [0, 1, 0]\<rparr>])
        (map_of []) None
        \<lparr>sim_data = [0, 1], sim_duration = 7200, sim_step = 10,
          sim_error = None, sim_statedict = None\<rparr>
        = Inr \<lparr>sim_data = [0, 1], sim_duration = 7200, sim_step = 10,
          sim_error = Some en, sim_statedict = Some sd\<rparr>
     \<and> length sd = 2
     \<and> (\<forall>tr \<in> set sd. trajectory_entries tr 721)
     \<and> energy_entries en 722"
proof -
  have cb: "\<forall>t. (map_of [] :: nat \<rightharpoonup> error) t = None" by simp
  show ?thesis
    using simulation_run_count [OF two_body_init two_body_well_formed cb refl]
    by (simp add: numeral_2_eq_2)
qed

end
